theory Spec2Isabelle
  imports Main "HOL-Library.AList" "HOL-Library.Sublist"
begin

section \<open>gitvcl: mirroring deployed VCL files into a git working copy\<close>

text \<open>
  A shallow embedding of \<^verbatim>\<open>src/main.py\<close>: the functions \<^verbatim>\<open>process_file\<close> and
  \<^verbatim>\<open>write_file\<close>, and the \<^verbatim>\<open>try\<close> block of \<^verbatim>\<open>main\<close> with its \<^verbatim>\<open>except\<close> clauses.
  The file system is modelled concretely (paths, directories, regular files). What the
  script calls in libraries is a parameter of the model, collected in the record
  \<open>env\<close>: the digest (\<^verbatim>\<open>hashlib.sha256\<close>), the codecs (\<^verbatim>\<open>b64decode\<close>,
  \<^verbatim>\<open>bytes.decode('utf-8')\<close>, the encoding of a file opened in text mode), the
  control-plane API (\<^verbatim>\<open>requests\<close>) and the git backend (\<^verbatim>\<open>git.Repo\<close>). Every
  theorem holds for all behaviours of these parameters unless it states otherwise.
  The set-up before the \<^verbatim>\<open>try\<close> block (settings, logging, \<^verbatim>\<open>initialize_git_repo\<close>)
  is not part of the model.
\<close>

subsection \<open>Data\<close>

text \<open>A \<open>char\<close> is one byte; Python's \<^verbatim>\<open>str\<close> is a list of code points.\<close>

type_synonym bytes = "char list"
type_synonym unicode = "nat list"
type_synonym path = "string list"

datatype node = File bytes | Dir

text \<open>
  The file system: an association list from absolute paths (lists of components, the
  root is \<open>[]\<close>) to nodes, read through \<open>map_of\<close>. There are no symbolic links.
\<close>

type_synonym filesys = "(path \<times> node) list"

datatype os_error = FileNotFoundError | NotADirectoryError | IsADirectoryError

datatype request_exception = HTTPError | ConnectionError | Timeout | RequestException

datatype exn =
    Request request_exception
  | BinasciiError
  | UnicodeDecodeError
  | UnicodeEncodeError
  | OSError os_error
  | GitCommandError

text \<open>An entry of \<^verbatim>\<open>GET /files\<close> and the answer of \<^verbatim>\<open>GET /files/{id}\<close>.\<close>

record file_entry =
  e_id :: int
  e_name :: string
  e_deployed :: bool

record file_detail =
  f_id :: int
  f_name :: string
  f_sha :: string
  f_source :: string
  f_draft :: string

datatype level = DEBUG | INFO | ERROR

datatype message =
    ProcessingFile int string string
  | WritingFile string
  | ChangesDetected
  | ChangesCommitted
  | PushingChanges
  | ChangesPushed
  | NoChanges
  | HttpError
  | ConnectionFailed
  | TimeoutError
  | GeneralError

datatype request = Login | ListFiles | GetFile int

text \<open>
  What a run does to the outside, in order: \<open>Wrote p\<close> is a successful
  \<^verbatim>\<open>open(p, "w")\<close>, \<open>Removed p\<close> a successful \<^verbatim>\<open>os.remove(p)\<close>, \<open>Committed m\<close> a
  successful \<^verbatim>\<open>repo.index.commit(m)\<close>.
\<close>

datatype event =
    Requested request
  | Wrote string
  | Removed string
  | IndexRemoved string
  | StagedAll
  | Committed string
  | Pushed
  | Log level message

record 'g world =
  disk :: filesys
  repo :: 'g
  events :: "event list"

record 'g env =
  sha256_hexdigest :: "bytes \<Rightarrow> string"
  b64decode :: "string \<Rightarrow> bytes option"
  utf8_decode :: "bytes \<Rightarrow> unicode option"
  text_encode :: "unicode \<Rightarrow> bytes option"
  getcwd :: path
  api_login :: "request_exception + string"
  api_files :: "string \<Rightarrow> request_exception + file_entry list"
  api_file :: "string \<Rightarrow> int \<Rightarrow> request_exception + file_detail"
  git_is_dirty :: "'g \<Rightarrow> filesys \<Rightarrow> bool"
  git_index_remove :: "'g \<Rightarrow> string \<Rightarrow> 'g option"
  git_add_all :: "'g \<Rightarrow> filesys \<Rightarrow> 'g option"
  git_index_commit :: "'g \<Rightarrow> string \<Rightarrow> 'g option"
  git_push :: "'g \<Rightarrow> 'g option"
  commit_message :: string

subsection \<open>Paths and the file system\<close>

text \<open>\<^verbatim>\<open>os.path.join(a, b)\<close> of \<^verbatim>\<open>posixpath\<close>, for two arguments.\<close>

definition os_path_join :: "string \<Rightarrow> string \<Rightarrow> string" where
  "os_path_join a b =
     (if b \<noteq> [] \<and> hd b = CHR ''/'' then b
      else if a = [] \<or> last a = CHR ''/'' then a @ b
      else a @ ''/'' @ b)"

text \<open>\<^verbatim>\<open>s.split('/')\<close>.\<close>

fun split_path :: "string \<Rightarrow> string list" where
  "split_path [] = [[]]"
| "split_path (c # cs) =
     (if c = CHR ''/'' then [] # split_path cs
      else (case split_path cs of [] \<Rightarrow> [[c]] | x # xs \<Rightarrow> (c # x) # xs))"

definition node_at :: "filesys \<Rightarrow> path \<Rightarrow> node option" where
  "node_at fs p = (if p = [] then Some Dir else map_of fs p)"

definition is_dir :: "filesys \<Rightarrow> path \<Rightarrow> bool" where
  "is_dir fs p = (node_at fs p = Some Dir)"

definition is_file :: "filesys \<Rightarrow> path \<Rightarrow> bool" where
  "is_file fs p = (case node_at fs p of Some (File b) \<Rightarrow> True | _ \<Rightarrow> False)"

text \<open>
  Path resolution as the kernel does it, one component at a time: the directory a
  component is looked up in must exist; empty components and \<^verbatim>\<open>.\<close> stay, \<^verbatim>\<open>..\<close> goes
  to the parent (the root is its own parent).
\<close>

fun walk_path :: "filesys \<Rightarrow> path \<Rightarrow> string list \<Rightarrow> os_error + path" where
  "walk_path fs cur [] = Inr cur"
| "walk_path fs cur (c # cs) =
     (if \<not> is_dir fs cur then
        Inl (if is_file fs cur then NotADirectoryError else FileNotFoundError)
      else if c = [] \<or> c = ''.'' then walk_path fs cur cs
      else if c = ''..'' then walk_path fs (butlast cur) cs
      else walk_path fs (cur @ [c]) cs)"

definition resolve :: "filesys \<Rightarrow> path \<Rightarrow> string \<Rightarrow> os_error + path" where
  "resolve fs wd s =
     (if s = [] then Inl FileNotFoundError
      else walk_path fs (if hd s = CHR ''/'' then [] else wd) (split_path s))"

text \<open>\<^verbatim>\<open>os.path.isfile\<close>: false on every error.\<close>

definition os_path_isfile :: "filesys \<Rightarrow> path \<Rightarrow> string \<Rightarrow> bool" where
  "os_path_isfile fs wd s =
     (case resolve fs wd s of Inl e \<Rightarrow> False | Inr p \<Rightarrow> is_file fs p)"

text \<open>\<^verbatim>\<open>open(s, "rb").read()\<close>.\<close>

definition read_bytes :: "filesys \<Rightarrow> path \<Rightarrow> string \<Rightarrow> os_error + bytes" where
  "read_bytes fs wd s =
     (case resolve fs wd s of
        Inl e \<Rightarrow> Inl e
      | Inr p \<Rightarrow>
          (case node_at fs p of
             None \<Rightarrow> Inl FileNotFoundError
           | Some Dir \<Rightarrow> Inl IsADirectoryError
           | Some (File b) \<Rightarrow> Inr b))"

text \<open>
  \<^verbatim>\<open>open(s, "w")\<close>: creates the file or truncates it, and returns where it is. The
  directory of the last component exists, since \<open>walk_path\<close> has looked it up there.
\<close>

definition open_w :: "filesys \<Rightarrow> path \<Rightarrow> string \<Rightarrow> os_error + (path \<times> filesys)" where
  "open_w fs wd s =
     (case resolve fs wd s of
        Inl e \<Rightarrow> Inl e
      | Inr p \<Rightarrow>
          if is_dir fs p then Inl IsADirectoryError
          else Inr (p, AList.update p (File []) fs))"

text \<open>\<^verbatim>\<open>os.remove(s)\<close>.\<close>

definition os_remove :: "filesys \<Rightarrow> path \<Rightarrow> string \<Rightarrow> os_error + filesys" where
  "os_remove fs wd s =
     (case resolve fs wd s of
        Inl e \<Rightarrow> Inl e
      | Inr p \<Rightarrow>
          (case node_at fs p of
             None \<Rightarrow> Inl FileNotFoundError
           | Some Dir \<Rightarrow> Inl IsADirectoryError
           | Some (File b) \<Rightarrow> Inr (AList.delete p fs)))"

text \<open>
  A name a directory entry can have: not empty, not \<^verbatim>\<open>.\<close> or \<^verbatim>\<open>..\<close>, without a slash.
\<close>

definition plain :: "string \<Rightarrow> bool" where
  "plain n = (n \<noteq> [] \<and> n \<noteq> ''.'' \<and> n \<noteq> ''..'' \<and> CHR ''/'' \<notin> set n)"

text \<open>
  The regular files directly in the directory \<open>d\<close>. A directory holds a name once and
  holds plain names only, whatever the association list looks like, so the listing
  keeps the plain names, each once.
\<close>

definition listing :: "filesys \<Rightarrow> path \<Rightarrow> string list" where
  "listing fs d =
     remdups (map last (filter (\<lambda>p. p \<noteq> [] \<and> butlast p = d \<and> plain (last p) \<and> is_file fs p)
                         (map fst fs)))"

text \<open>
  \<^verbatim>\<open>next(os.walk(folder), (None, None, []))[2]\<close>: the files at the top level of the folder,
  and the empty list when the folder cannot be listed (\<^verbatim>\<open>os.walk\<close> ignores the error).
\<close>

definition os_walk_files :: "filesys \<Rightarrow> path \<Rightarrow> string \<Rightarrow> string list" where
  "os_walk_files fs wd folder =
     (case resolve fs wd folder of
        Inl e \<Rightarrow> []
      | Inr d \<Rightarrow> if is_dir fs d then listing fs d else [])"

subsection \<open>process_file and write_file\<close>

definition emit :: "event \<Rightarrow> 'g world \<Rightarrow> 'g world" where
  "emit e w = w\<lparr>events := events w @ [e]\<rparr>"

text \<open>
  \<^verbatim>\<open>write_file\<close> (lines 62-65). The file is opened, and so truncated, before the text is
  encoded and written.
\<close>

definition write_file ::
  "'g env \<Rightarrow> string \<Rightarrow> unicode \<Rightarrow> string \<Rightarrow> 'g world \<Rightarrow> (exn + unit) \<times> 'g world" where
  "write_file E filename source save_folder w =
     (let w1 = emit (Log INFO (WritingFile filename)) w;
          p = os_path_join save_folder filename
      in case open_w (disk w1) (getcwd E) p of
           Inl e \<Rightarrow> (Inl (OSError e), w1)
         | Inr (q, fs1) \<Rightarrow>
             (let w2 = emit (Wrote p) (w1\<lparr>disk := fs1\<rparr>)
              in case text_encode E source of
                   None \<Rightarrow> (Inl UnicodeEncodeError, w2)
                 | Some bs \<Rightarrow> (Inr (), w2\<lparr>disk := AList.update q (File bs) fs1\<rparr>)))"

text \<open>Line 48: the published payload unless it is empty, then the draft.\<close>

definition file_source :: "file_detail \<Rightarrow> string" where
  "file_source file = (if f_source file = [] then f_draft file else f_source file)"

text \<open>\<^verbatim>\<open>b64decode(file_source).decode('utf-8')\<close>.\<close>

definition decode_source :: "'g env \<Rightarrow> string \<Rightarrow> exn + unicode" where
  "decode_source E s =
     (case b64decode E s of
        None \<Rightarrow> Inl BinasciiError
      | Some b \<Rightarrow>
          (case utf8_decode E b of
             None \<Rightarrow> Inl UnicodeDecodeError
           | Some t \<Rightarrow> Inr t))"

text \<open>Lines 52-54: the digest of the local bytes is not the remote digest.\<close>

definition is_changed :: "'g env \<Rightarrow> bytes \<Rightarrow> string \<Rightarrow> bool" where
  "is_changed E local_bytes remote_sha = (sha256_hexdigest E local_bytes \<noteq> remote_sha)"

text \<open>
  The two identical calls of lines 55 and 58: the arguments are evaluated first, so a
  decoding error is raised before \<^verbatim>\<open>write_file\<close> is entered.
\<close>

definition decode_and_write ::
  "'g env \<Rightarrow> file_detail \<Rightarrow> string \<Rightarrow> 'g world \<Rightarrow> (exn + bool) \<times> 'g world" where
  "decode_and_write E file save_folder w =
     (case decode_source E (file_source file) of
        Inl e \<Rightarrow> (Inl e, w)
      | Inr t \<Rightarrow>
          (case write_file E (f_name file) t save_folder w of
             (Inl e, w') \<Rightarrow> (Inl e, w')
           | (Inr u, w') \<Rightarrow> (Inr True, w')))"

text \<open>
  \<^verbatim>\<open>process_file\<close> (lines 46-60). Nothing changes the file between \<^verbatim>\<open>isfile\<close> and
  \<^verbatim>\<open>open\<close>, so the branch for a failed read is never taken here; it is kept because
  \<^verbatim>\<open>open\<close> can raise.
\<close>

definition process_file ::
  "'g env \<Rightarrow> file_detail \<Rightarrow> string \<Rightarrow> 'g world \<Rightarrow> (exn + bool) \<times> 'g world" where
  "process_file E file save_folder w =
     (let w1 = emit (Log DEBUG (ProcessingFile (f_id file) (f_name file) (f_sha file))) w;
          file_path = os_path_join save_folder (f_name file)
      in if os_path_isfile (disk w1) (getcwd E) file_path then
           (case read_bytes (disk w1) (getcwd E) file_path of
              Inl e \<Rightarrow> (Inl (OSError e), w1)
            | Inr original \<Rightarrow>
                if is_changed E original (f_sha file)
                then decode_and_write E file save_folder w1
                else (Inr False, w1))
         else decode_and_write E file save_folder w1)"

subsection \<open>The try block of main\<close>

text \<open>Lines 122-125: the ids and the names of the deployed entries.\<close>

definition file_ids :: "file_entry list \<Rightarrow> int list" where
  "file_ids files = map e_id (filter e_deployed files)"

definition files_to_backup :: "file_entry list \<Rightarrow> string list" where
  "files_to_backup files = map e_name (filter e_deployed files)"

text \<open>
  Lines 127-131: one request per deployed id, each answer processed at once. The
  boolean is \<^verbatim>\<open>commit_required\<close>.
\<close>

fun fetch_loop ::
  "'g env \<Rightarrow> string \<Rightarrow> string \<Rightarrow> int list \<Rightarrow> bool \<Rightarrow> 'g world \<Rightarrow> (exn + bool) \<times> 'g world" where
  "fetch_loop E token save_folder [] commit_required w = (Inr commit_required, w)"
| "fetch_loop E token save_folder (vclfile_id # ids) commit_required w =
     (let w1 = emit (Requested (GetFile vclfile_id)) w
      in case api_file E token vclfile_id of
           Inl r \<Rightarrow> (Inl (Request r), w1)
         | Inr file \<Rightarrow>
             (case process_file E file save_folder w1 of
                (Inl e, w2) \<Rightarrow> (Inl e, w2)
              | (Inr b, w2) \<Rightarrow>
                  fetch_loop E token save_folder ids (if b then True else commit_required) w2))"

text \<open>Lines 134-138: the cleanup of the files that no deployed entry names.\<close>

fun cleanup_loop ::
  "'g env \<Rightarrow> string \<Rightarrow> string list \<Rightarrow> string list \<Rightarrow> bool \<Rightarrow> 'g world \<Rightarrow> (exn + bool) \<times> 'g world" where
  "cleanup_loop E save_folder backup [] commit_required w = (Inr commit_required, w)"
| "cleanup_loop E save_folder backup (file # files) commit_required w =
     (if file \<notin> set backup then
        (case os_remove (disk w) (getcwd E) (os_path_join save_folder file) of
           Inl e \<Rightarrow> (Inl (OSError e), w)
         | Inr fs1 \<Rightarrow>
             (let w1 = emit (Removed (os_path_join save_folder file)) (w\<lparr>disk := fs1\<rparr>)
              in case git_index_remove E (repo w1) file of
                   None \<Rightarrow> (Inl GitCommandError, w1)
                 | Some g \<Rightarrow>
                     cleanup_loop E save_folder backup files True
                       (emit (IndexRemoved file) (w1\<lparr>repo := g\<rparr>))))
      else cleanup_loop E save_folder backup files commit_required w)"

text \<open>
  Lines 108-138: login, the list of files, the snapshot of the folder, the fetch loop
  and the cleanup. The result is \<^verbatim>\<open>commit_required\<close>.
\<close>

definition main_sync :: "'g env \<Rightarrow> string \<Rightarrow> 'g world \<Rightarrow> (exn + bool) \<times> 'g world" where
  "main_sync E save_folder w =
     (let w1 = emit (Requested Login) w
      in case api_login E of
           Inl r \<Rightarrow> (Inl (Request r), w1)
         | Inr api_token \<Rightarrow>
             (let w2 = emit (Requested ListFiles) w1
              in case api_files E api_token of
                   Inl r \<Rightarrow> (Inl (Request r), w2)
                 | Inr files \<Rightarrow>
                     (let files_on_disk = os_walk_files (disk w2) (getcwd E) save_folder
                      in case fetch_loop E api_token save_folder (file_ids files) False w2 of
                           (Inl e, w3) \<Rightarrow> (Inl e, w3)
                         | (Inr c, w3) \<Rightarrow>
                             cleanup_loop E save_folder (files_to_backup files)
                               files_on_disk c w3)))"

text \<open>Lines 140-153: the commit and the push.\<close>

definition main_commit ::
  "'g env \<Rightarrow> bool \<Rightarrow> bool \<Rightarrow> 'g world \<Rightarrow> (exn + unit) \<times> 'g world" where
  "main_commit E push_to_repo commit_required w =
     (if commit_required \<or> git_is_dirty E (repo w) (disk w) then
        (let w1 = emit (Log INFO ChangesDetected) w
         in case git_add_all E (repo w1) (disk w1) of
              None \<Rightarrow> (Inl GitCommandError, w1)
            | Some g1 \<Rightarrow>
                (let w2 = emit StagedAll (w1\<lparr>repo := g1\<rparr>)
                 in case git_index_commit E (repo w2) (commit_message E) of
                      None \<Rightarrow> (Inl GitCommandError, w2)
                    | Some g2 \<Rightarrow>
                        (let w3 = emit (Log INFO ChangesCommitted)
                                    (emit (Committed (commit_message E)) (w2\<lparr>repo := g2\<rparr>))
                         in if push_to_repo then
                              (let w4 = emit (Log INFO PushingChanges) w3
                               in case git_push E (repo w4) of
                                    None \<Rightarrow> (Inl GitCommandError, w4)
                                  | Some g3 \<Rightarrow>
                                      (Inr (), emit (Log INFO ChangesPushed)
                                                 (emit Pushed (w4\<lparr>repo := g3\<rparr>))))
                            else (Inr (), w3))))
      else (Inr (), emit (Log INFO NoChanges) w))"

text \<open>The body of the \<^verbatim>\<open>try\<close> statement (lines 108-153).\<close>

definition main_try ::
  "'g env \<Rightarrow> string \<Rightarrow> bool \<Rightarrow> 'g world \<Rightarrow> (exn + unit) \<times> 'g world" where
  "main_try E save_folder push_to_repo w =
     (case main_sync E save_folder w of
        (Inl e, w1) \<Rightarrow> (Inl e, w1)
      | (Inr c, w1) \<Rightarrow> main_commit E push_to_repo c w1)"

text \<open>
  The \<^verbatim>\<open>except\<close> clauses (lines 155-162), in their order, and the exit status of the
  process: 0 when \<^verbatim>\<open>main\<close> returns, 1 when an exception leaves it.
\<close>

fun error_message :: "request_exception \<Rightarrow> message" where
  "error_message HTTPError = HttpError"
| "error_message ConnectionError = ConnectionFailed"
| "error_message Timeout = TimeoutError"
| "error_message RequestException = GeneralError"

definition main :: "'g env \<Rightarrow> string \<Rightarrow> bool \<Rightarrow> 'g world \<Rightarrow> nat \<times> 'g world" where
  "main E save_folder push_to_repo w =
     (case main_try E save_folder push_to_repo w of
        (Inr u, w1) \<Rightarrow> (0, w1)
      | (Inl (Request r), w1) \<Rightarrow> (0, emit (Log ERROR (error_message r)) w1)
      | (Inl e, w1) \<Rightarrow> (1, w1))"

subsection \<open>What is observed of a run\<close>

primrec wrote_paths :: "event list \<Rightarrow> string list" where
  "wrote_paths [] = []"
| "wrote_paths (e # es) = (case e of Wrote p \<Rightarrow> p # wrote_paths es | _ \<Rightarrow> wrote_paths es)"

primrec removed_paths :: "event list \<Rightarrow> string list" where
  "removed_paths [] = []"
| "removed_paths (e # es) = (case e of Removed p \<Rightarrow> p # removed_paths es | _ \<Rightarrow> removed_paths es)"

primrec requested_ids :: "event list \<Rightarrow> int list" where
  "requested_ids [] = []"
| "requested_ids (e # es) =
     (case e of Requested (GetFile i) \<Rightarrow> i # requested_ids es | _ \<Rightarrow> requested_ids es)"

primrec commits :: "event list \<Rightarrow> nat" where
  "commits [] = 0"
| "commits (e # es) = (case e of Committed m \<Rightarrow> Suc (commits es) | _ \<Rightarrow> commits es)"

text \<open>
  A local file exists at the path and the SHA-256 digest of its bytes is the remote
  digest: the case in which \<^verbatim>\<open>process_file\<close> reaches its last line.
\<close>

definition up_to_date :: "'g env \<Rightarrow> filesys \<Rightarrow> string \<Rightarrow> string \<Rightarrow> bool" where
  "up_to_date E fs p sha =
     (os_path_isfile fs (getcwd E) p \<and>
      (case read_bytes fs (getcwd E) p of
         Inl e \<Rightarrow> False
       | Inr b \<Rightarrow> \<not> is_changed E b sha))"

text \<open>Two file systems with the same directories: paths resolve alike in both.\<close>

definition same_dirs :: "filesys \<Rightarrow> filesys \<Rightarrow> bool" where
  "same_dirs fs fs' = (\<forall>p. is_dir fs p = is_dir fs' p)"

subsection \<open>A remote state that can be mirrored\<close>

text \<open>
  The remote digest of an artifact is the SHA-256 digest of the bytes the script stores
  for its effective payload (when the payload can be decoded and encoded at all).
\<close>

definition faithful :: "'g env \<Rightarrow> file_detail \<Rightarrow> bool" where
  "faithful E f =
     (case decode_source E (file_source f) of
        Inl e \<Rightarrow> True
      | Inr t \<Rightarrow>
          (case text_encode E t of
             None \<Rightarrow> True
           | Some bs \<Rightarrow> sha256_hexdigest E bs = f_sha f))"

text \<open>
  An entry of the list whose name is a plain file name and whose retrieved content, if
  it can be retrieved, carries the same name and a faithful digest.
\<close>

definition entry_ok :: "'g env \<Rightarrow> string \<Rightarrow> file_entry \<Rightarrow> bool" where
  "entry_ok E tok e =
     (plain (e_name e) \<and>
      (case api_file E tok (e_id e) of
         Inl r \<Rightarrow> True
       | Inr f \<Rightarrow> f_name f = e_name e \<and> faithful E f))"

text \<open>The names of the deployed entries are distinct, and each deployed entry is fine.\<close>

definition remote_well_formed :: "'g env \<Rightarrow> string \<Rightarrow> file_entry list \<Rightarrow> bool" where
  "remote_well_formed E tok files =
     (distinct (files_to_backup files) \<and>
      list_all (\<lambda>e. e_deployed e \<longrightarrow> entry_ok E tok e) files)"

text \<open>The file of an entry is in the directory \<open>d\<close>, with the digest of the remote content.\<close>

definition entry_synced :: "'g env \<Rightarrow> string \<Rightarrow> filesys \<Rightarrow> path \<Rightarrow> file_entry \<Rightarrow> bool" where
  "entry_synced E tok fs d e =
     (case api_file E tok (e_id e) of
        Inl r \<Rightarrow> False
      | Inr f \<Rightarrow>
          (case node_at fs (d @ [e_name e]) of
             Some (File bs) \<Rightarrow> sha256_hexdigest E bs = f_sha f
           | _ \<Rightarrow> False))"

subsection \<open>A small environment to run the model on\<close>

text \<open>
  The library functions on the few values the examples need: true SHA-256 digests and
  base64 decodings, UTF-8 on ASCII bytes (a byte above 127 alone is not valid UTF-8),
  and a git backend that keeps two snapshots of the file system, the index and the
  last commit; as \<^verbatim>\<open>git rm --cached\<close> does, it refuses to remove a name that the index
  does not hold.
\<close>

definition sha256_table :: "bytes \<Rightarrow> string" where
  "sha256_table b =
     (if b = [] then ''e3b0c44298fc1c149afbf4c8996fb92427ae41e4649b934ca495991b7852b855''
      else if b = ''a'' then ''ca978112ca1bbdcafac231b39a23dc4da786eff8147c4e72b9807785afee48bb''
      else if b = ''b'' then ''3e23e8160039594a33894f6564e1b1348bbd7a0088d42c4acb73eeaed59c009d''
      else if b = [CHR 0xFF] then ''a8100ae6aa1940d0b663bb31cd466142ebbdbd5187131b92d93818987832eb89''
      else [])"

definition b64_table :: "string \<Rightarrow> bytes option" where
  "b64_table s =
     (if s = [] then Some []
      else if s = ''YQ=='' then Some ''a''
      else if s = ''Yg=='' then Some ''b''
      else if s = ''/w=='' then Some [CHR 0xFF]
      else None)"

definition ascii_decode :: "bytes \<Rightarrow> unicode option" where
  "ascii_decode b =
     (if list_all (\<lambda>c. of_char c < (128::nat)) b then Some (map of_char b) else None)"

definition ascii_encode :: "unicode \<Rightarrow> bytes option" where
  "ascii_encode t = (if list_all (\<lambda>n. n < 128) t then Some (map char_of t) else None)"

type_synonym snapshots = "filesys \<times> filesys"

definition example_env ::
  "request_exception + file_entry list \<Rightarrow> (int \<Rightarrow> request_exception + file_detail) \<Rightarrow>
   snapshots env" where
  "example_env files detail =
     \<lparr> sha256_hexdigest = sha256_table,
       b64decode = b64_table,
       utf8_decode = ascii_decode,
       text_encode = ascii_encode,
       getcwd = [''srv''],
       api_login = Inr ''token'',
       api_files = (\<lambda>t. files),
       api_file = (\<lambda>t. detail),
       git_is_dirty = (\<lambda>g fs. fst g \<noteq> snd g \<or> fs \<noteq> snd g),
       git_index_remove =
         (\<lambda>g n. if list_ex (\<lambda>x. fst x \<noteq> [] \<and> last (fst x) = n) (fst g)
                then Some (filter (\<lambda>x. fst x = [] \<or> last (fst x) \<noteq> n) (fst g), snd g)
                else None),
       git_add_all = (\<lambda>g fs. Some (fs, snd g)),
       git_index_commit = (\<lambda>g m. Some (fst g, fst g)),
       git_push = (\<lambda>g. Some g),
       commit_message = ''Updated configs at 2024-01-01 00:00'' \<rparr>"

text \<open>
  The mirror \<^verbatim>\<open>/srv/mirror\<close> with \<^verbatim>\<open>a.vcl\<close> (content \<^verbatim>\<open>a\<close>) and \<^verbatim>\<open>c.vcl\<close> (content
  \<^verbatim>\<open>b\<close>), all of it committed.
\<close>

definition disk0 :: filesys where
  "disk0 =
     [([''srv''], Dir), ([''srv'', ''mirror''], Dir), ([''srv'', ''mirror'', ''.git''], Dir),
      ([''srv'', ''mirror'', ''a.vcl''], File ''a''),
      ([''srv'', ''mirror'', ''c.vcl''], File ''b'')]"

definition world0 :: "snapshots world" where
  "world0 = \<lparr> disk = disk0, repo = (disk0, disk0), events = [] \<rparr>"

definition entry :: "int \<Rightarrow> string \<Rightarrow> bool \<Rightarrow> file_entry" where
  "entry i n d = \<lparr> e_id = i, e_name = n, e_deployed = d \<rparr>"

definition detail :: "int \<Rightarrow> string \<Rightarrow> string \<Rightarrow> string \<Rightarrow> string \<Rightarrow> file_detail" where
  "detail i n s src dr = \<lparr> f_id = i, f_name = n, f_sha = s, f_source = src, f_draft = dr \<rparr>"

text \<open>Two deployed files and one that is not; \<^verbatim>\<open>b.vcl\<close> is new.\<close>

definition env_ab :: "snapshots env" where
  "env_ab =
     example_env (Inr [entry 1 ''a.vcl'' True, entry 2 ''b.vcl'' True, entry 3 ''x.vcl'' False])
       (\<lambda>i. if i = 1 then Inr (detail 1 ''a.vcl'' (sha256_table ''a'') ''YQ=='' [])
            else if i = 2 then Inr (detail 2 ''b.vcl'' (sha256_table ''b'') ''Yg=='' [])
            else Inl HTTPError)"

text \<open>The remote state that \<open>disk0\<close> mirrors already.\<close>

definition env_in_sync :: "snapshots env" where
  "env_in_sync =
     example_env (Inr [entry 1 ''a.vcl'' True, entry 3 ''c.vcl'' True])
       (\<lambda>i. if i = 1 then Inr (detail 1 ''a.vcl'' (sha256_table ''a'') ''YQ=='' [])
            else if i = 3 then Inr (detail 3 ''c.vcl'' (sha256_table ''b'') ''Yg=='' [])
            else Inl HTTPError)"

text \<open>The mirror with a file in a subdirectory that was never committed.\<close>

definition world_stray :: "snapshots world" where
  "world_stray =
     \<lparr> disk = disk0 @ [([''srv'', ''mirror'', ''notes''], Dir),
                       ([''srv'', ''mirror'', ''notes'', ''todo''], File ''a'')],
       repo = (disk0, disk0), events = [] \<rparr>"

text \<open>Failures of the three requests.\<close>

definition env_login_fails :: "snapshots env" where
  "env_login_fails = env_ab\<lparr>api_login := Inl ConnectionError\<rparr>"

definition env_list_fails :: "snapshots env" where
  "env_list_fails = example_env (Inl Timeout) (\<lambda>i. Inl RequestException)"

definition env_fetch_fails :: "snapshots env" where
  "env_fetch_fails =
     example_env (Inr [entry 2 ''b.vcl'' True, entry 9 ''z.vcl'' True])
       (\<lambda>i. if i = 2 then Inr (detail 2 ''b.vcl'' (sha256_table ''b'') ''Yg=='' [])
            else Inl HTTPError)"

text \<open>A new file, then a payload that is the single byte \<^verbatim>\<open>0xFF\<close>.\<close>

definition env_bad_utf8 :: "snapshots env" where
  "env_bad_utf8 =
     example_env (Inr [entry 2 ''b.vcl'' True, entry 8 ''bad.vcl'' True])
       (\<lambda>i. if i = 2 then Inr (detail 2 ''b.vcl'' (sha256_table ''b'') ''Yg=='' [])
            else if i = 8 then Inr (detail 8 ''bad.vcl'' (sha256_table [CHR 0xFF]) ''/w=='' [])
            else Inl HTTPError)"

text \<open>Two deployed artifacts whose names point out of the mirror directory.\<close>

definition env_escape :: "snapshots env" where
  "env_escape =
     example_env (Inr [entry 1 ''../escape.vcl'' True, entry 2 ''/srv/abs.vcl'' True])
       (\<lambda>i. if i = 1 then Inr (detail 1 ''../escape.vcl'' (sha256_table ''a'') ''YQ=='' [])
            else if i = 2 then Inr (detail 2 ''/srv/abs.vcl'' (sha256_table ''b'') ''Yg=='' [])
            else Inl HTTPError)"

lemmas example_defs =
  example_env_def sha256_table_def b64_table_def ascii_decode_def ascii_encode_def
  disk0_def world0_def entry_def detail_def env_ab_def env_in_sync_def world_stray_def
  env_login_fails_def env_list_fails_def env_fetch_fails_def env_bad_utf8_def env_escape_def


text \<open>The mirror with a file at its top level that was never added to the index.\<close>

definition world_top_stray :: "snapshots world" where
  "world_top_stray =
     \<lparr> disk = disk0 @ [([''srv'', ''mirror'', ''stray.txt''], File ''a'')],
       repo = (disk0, disk0), events = [] \<rparr>"

text \<open>
  Remote states that cannot be mirrored: a name that is not a plain file name, two
  deployed entries of one name, a digest that is not the digest of the payload, and a
  retrieved name that is not the listed one.
\<close>

definition env_dot_name :: "snapshots env" where
  "env_dot_name =
     example_env (Inr [entry 1 ''./a.vcl'' True, entry 3 ''c.vcl'' True])
       (\<lambda>i. if i = 1 then Inr (detail 1 ''./a.vcl'' (sha256_table ''a'') ''YQ=='' [])
            else if i = 3 then Inr (detail 3 ''c.vcl'' (sha256_table ''b'') ''Yg=='' [])
            else Inl HTTPError)"

definition env_same_name :: "snapshots env" where
  "env_same_name =
     example_env (Inr [entry 1 ''a.vcl'' True, entry 2 ''a.vcl'' True, entry 3 ''c.vcl'' True])
       (\<lambda>i. if i = 1 then Inr (detail 1 ''a.vcl'' (sha256_table ''a'') ''YQ=='' [])
            else if i = 2 then Inr (detail 2 ''a.vcl'' (sha256_table ''b'') ''Yg=='' [])
            else if i = 3 then Inr (detail 3 ''c.vcl'' (sha256_table ''b'') ''Yg=='' [])
            else Inl HTTPError)"

definition env_other_digest :: "snapshots env" where
  "env_other_digest =
     example_env (Inr [entry 1 ''a.vcl'' True, entry 3 ''c.vcl'' True])
       (\<lambda>i. if i = 1 then Inr (detail 1 ''a.vcl'' (sha256_table []) ''YQ=='' [])
            else if i = 3 then Inr (detail 3 ''c.vcl'' (sha256_table ''b'') ''Yg=='' [])
            else Inl HTTPError)"

definition env_other_name :: "snapshots env" where
  "env_other_name =
     example_env (Inr [entry 1 ''a.vcl'' True, entry 3 ''c.vcl'' True])
       (\<lambda>i. if i = 1 then Inr (detail 1 ''b.vcl'' (sha256_table ''b'') ''Yg=='' [])
            else if i = 3 then Inr (detail 3 ''c.vcl'' (sha256_table ''b'') ''Yg=='' [])
            else Inl HTTPError)"

text \<open>
  A local file \<^verbatim>\<open>bad.vcl\<close> that holds the byte \<^verbatim>\<open>0xFF\<close>, all of it committed, and the
  remote state it mirrors: the payload of \<^verbatim>\<open>bad.vcl\<close> is that byte, which is not valid
  UTF-8, and its digest is the digest of the local file.
\<close>

definition disk_bad :: filesys where
  "disk_bad = disk0 @ [([''srv'', ''mirror'', ''bad.vcl''], File [CHR 0xFF])]"

definition world_bad :: "snapshots world" where
  "world_bad = \<lparr> disk = disk_bad, repo = (disk_bad, disk_bad), events = [] \<rparr>"

definition env_bad_in_sync :: "snapshots env" where
  "env_bad_in_sync =
     example_env (Inr [entry 1 ''a.vcl'' True, entry 3 ''c.vcl'' True, entry 8 ''bad.vcl'' True])
       (\<lambda>i. if i = 1 then Inr (detail 1 ''a.vcl'' (sha256_table ''a'') ''YQ=='' [])
            else if i = 3 then Inr (detail 3 ''c.vcl'' (sha256_table ''b'') ''Yg=='' [])
            else if i = 8 then Inr (detail 8 ''bad.vcl'' (sha256_table [CHR 0xFF]) ''/w=='' [])
            else Inl HTTPError)"

text \<open>The mirror with an empty file \<^verbatim>\<open>empty.vcl\<close>, all of it committed.\<close>

definition world_empty :: "snapshots world" where
  "world_empty =
     \<lparr> disk = disk0 @ [([''srv'', ''mirror'', ''empty.vcl''], File [])],
       repo = (disk0 @ [([''srv'', ''mirror'', ''empty.vcl''], File [])],
               disk0 @ [([''srv'', ''mirror'', ''empty.vcl''], File [])]),
       events = [] \<rparr>"

text \<open>
  A deployed artifact that cannot be retrieved, listed before the artifact whose payload
  is not valid UTF-8.
\<close>

definition env_bad_unreached :: "snapshots env" where
  "env_bad_unreached =
     example_env (Inr [entry 9 ''gone.vcl'' True, entry 8 ''bad.vcl'' True])
       (\<lambda>i. if i = 8 then Inr (detail 8 ''bad.vcl'' (sha256_table [CHR 0xFF]) ''/w=='' [])
            else Inl HTTPError)"

section \<open>Lemmas\<close>

subsection \<open>Paths\<close>

lemma split_path_not_Nil: "split_path s \<noteq> []"
  by (induction s) (auto split: list.splits)

lemma split_path_plain: "CHR ''/'' \<notin> set n \<Longrightarrow> split_path n = [n]"
  by (induction n) auto

lemma split_path_append_slash:
  "split_path (xs @ CHR ''/'' # ys) = split_path xs @ split_path ys"
proof (induction xs)
  case Nil
  then show ?case by simp
next
  case (Cons x xs)
  then show ?case
    using split_path_not_Nil [of xs] by (cases "split_path xs") auto
qed

lemma walk_path_append:
  "walk_path fs cur (xs @ ys) =
     (case walk_path fs cur xs of Inl e \<Rightarrow> Inl e | Inr d \<Rightarrow> walk_path fs d ys)"
  by (induction fs cur xs rule: walk_path.induct) auto

lemma walk_path_plain:
  "plain n \<Longrightarrow> is_dir fs d \<Longrightarrow> walk_path fs d [n] = Inr (d @ [n])"
  by (auto simp: plain_def)

lemma walk_path_empty_component:
  "walk_path fs d [[]] = Inr d' \<longleftrightarrow> d' = d \<and> is_dir fs d"
  by auto

lemma hd_append_slash: "hd (xs @ CHR ''/'' # ys) = hd (xs @ ''/'')"
  by (cases xs) auto

lemma resolve_join_plain:
  assumes n: "plain n" and r: "resolve fs wd folder = Inr d" and d: "is_dir fs d"
  shows "resolve fs wd (os_path_join folder n) = Inr (d @ [n])"
proof -
  from r have ne: "folder \<noteq> []" by (auto simp: resolve_def)
  from n have n1: "n \<noteq> []" and n2: "hd n \<noteq> CHR ''/''" and n3: "CHR ''/'' \<notin> set n"
    by (auto simp: plain_def dest: hd_in_set)
  let ?start = "if hd folder = CHR ''/'' then [] else wd"
  from r ne have w: "walk_path fs ?start (split_path folder) = Inr d"
    by (simp add: resolve_def)
  show ?thesis
  proof (cases "last folder = CHR ''/''")
    case True
    with ne obtain f where f: "folder = f @ ''/''"
      by (metis append_butlast_last_id)
    have j: "os_path_join folder n = f @ CHR ''/'' # n"
      using True n1 n2 ne by (simp add: os_path_join_def f)
    have hd: "hd (f @ CHR ''/'' # n) = hd folder"
      by (simp add: f hd_append_slash [of f n])
    from w have "walk_path fs ?start (split_path f @ [[]]) = Inr d"
      by (simp add: f split_path_append_slash)
    then have "walk_path fs ?start (split_path f) = Inr d"
      by (auto simp: walk_path_append split: sum.splits if_splits)
    then have "walk_path fs ?start (split_path f @ [n]) = Inr (d @ [n])"
      using walk_path_plain [OF n d] by (simp add: walk_path_append)
    then show ?thesis
      by (simp add: j resolve_def hd split_path_append_slash split_path_plain [OF n3])
  next
    case False
    have j: "os_path_join folder n = folder @ CHR ''/'' # n"
      using False n1 n2 ne by (simp add: os_path_join_def)
    have hd: "hd (folder @ CHR ''/'' # n) = hd folder"
      using ne by simp
    from w have "walk_path fs ?start (split_path folder @ [n]) = Inr (d @ [n])"
      using walk_path_plain [OF n d] by (simp add: walk_path_append)
    then show ?thesis
      by (simp add: j resolve_def hd split_path_append_slash split_path_plain [OF n3])
  qed
qed

subsection \<open>Directories are not changed by writing and removing files\<close>

lemma same_dirs_refl: "same_dirs fs fs"
  by (simp add: same_dirs_def)

lemma same_dirs_trans: "same_dirs a b \<Longrightarrow> same_dirs b c \<Longrightarrow> same_dirs a c"
  by (simp add: same_dirs_def)

lemma same_dirs_sym: "same_dirs a b \<Longrightarrow> same_dirs b a"
  by (simp add: same_dirs_def)

lemma walk_path_same_dirs:
  "same_dirs fs fs' \<Longrightarrow> (walk_path fs cur cs = Inr q) = (walk_path fs' cur cs = Inr q)"
  by (induction fs cur cs rule: walk_path.induct) (auto simp: same_dirs_def)

lemma resolve_same_dirs:
  "same_dirs fs fs' \<Longrightarrow> (resolve fs wd s = Inr q) = (resolve fs' wd s = Inr q)"
  by (simp add: resolve_def walk_path_same_dirs)

lemma node_at_root [simp]: "node_at fs [] = Some Dir"
  by (simp add: node_at_def)

lemma node_at_update:
  "node_at (AList.update p v fs) q =
     (if q = [] then Some Dir else if q = p then Some v else node_at fs q)"
  by (simp add: node_at_def update_conv')

lemma node_at_delete:
  "node_at (AList.delete p fs) q =
     (if q = [] then Some Dir else if q = p then None else node_at fs q)"
  by (simp add: node_at_def delete_conv')

lemma same_dirs_update_file:
  "\<not> is_dir fs p \<Longrightarrow> same_dirs fs (AList.update p (File b) fs)"
  by (auto simp: same_dirs_def is_dir_def node_at_update)

lemma same_dirs_delete_file:
  "\<not> is_dir fs p \<Longrightarrow> same_dirs fs (AList.delete p fs)"
  by (auto simp: same_dirs_def is_dir_def node_at_delete)

lemma is_file_not_dir: "is_file fs p \<Longrightarrow> \<not> is_dir fs p"
  by (auto simp: is_file_def is_dir_def split: option.splits node.splits)

lemma set_listing: "set (listing fs d) = {n. plain n \<and> is_file fs (d @ [n])}"
proof -
  have "is_file fs p \<Longrightarrow> p \<noteq> [] \<Longrightarrow> p \<in> fst ` set fs" for p
    by (auto simp: is_file_def node_at_def split: option.splits dest: map_of_SomeD intro: rev_image_eqI)
  moreover have "p \<noteq> [] \<and> butlast p = d \<and> last p = n \<longleftrightarrow> p = d @ [n]" for p n
    by (auto simp: snoc_eq_iff_butlast)
  ultimately show ?thesis
    by (auto simp: listing_def image_iff) (metis fst_conv snoc_eq_iff_butlast)+
qed

lemma distinct_listing: "distinct (listing fs d)"
  by (simp add: listing_def)

subsection \<open>Events, and the cases of writing a file\<close>

lemma wrote_paths_append [simp]: "wrote_paths (xs @ ys) = wrote_paths xs @ wrote_paths ys"
  by (induction xs) (auto split: event.splits)

lemma removed_paths_append [simp]: "removed_paths (xs @ ys) = removed_paths xs @ removed_paths ys"
  by (induction xs) (auto split: event.splits)

lemma requested_ids_append [simp]: "requested_ids (xs @ ys) = requested_ids xs @ requested_ids ys"
  by (induction xs) (auto split: event.splits request.splits)

lemma commits_append [simp]: "commits (xs @ ys) = commits xs + commits ys"
  by (induction xs) (auto split: event.splits)

lemma emit_simps [simp]:
  "disk (emit e w) = disk w" "repo (emit e w) = repo w" "events (emit e w) = events w @ [e]"
  by (simp_all add: emit_def)

lemma up_to_date_iff:
  "up_to_date E fs p sha \<longleftrightarrow>
     (\<exists>q b. resolve fs (getcwd E) p = Inr q \<and> node_at fs q = Some (File b) \<and>
            sha256_hexdigest E b = sha)"
  by (auto simp: up_to_date_def os_path_isfile_def read_bytes_def is_file_def is_changed_def
      split: sum.splits option.splits node.splits)

lemma process_file_up_to_date:
  "up_to_date E (disk w) (os_path_join folder (f_name file)) (f_sha file) \<Longrightarrow>
   process_file E file folder w =
     (Inr False, emit (Log DEBUG (ProcessingFile (f_id file) (f_name file) (f_sha file))) w)"
  by (auto simp: process_file_def up_to_date_def Let_def split: sum.splits)

lemma process_file_not_up_to_date:
  "\<not> up_to_date E (disk w) (os_path_join folder (f_name file)) (f_sha file) \<Longrightarrow>
   process_file E file folder w =
     decode_and_write E file folder
       (emit (Log DEBUG (ProcessingFile (f_id file) (f_name file) (f_sha file))) w)"
  by (auto simp: process_file_def up_to_date_def Let_def os_path_isfile_def read_bytes_def is_file_def
      split: sum.splits option.splits node.splits)

lemma decode_and_write_cases [case_names decode_error open_error encode_error written]:
  fixes E :: "'g env" and w :: "'g world"
  assumes
    "\<And>e. decode_source E (file_source file) = Inl e \<Longrightarrow>
         decode_and_write E file folder w = (Inl e, w) \<Longrightarrow> P"
    "\<And>t e. decode_source E (file_source file) = Inr t \<Longrightarrow>
         (resolve (disk w) (getcwd E) (os_path_join folder (f_name file)) = Inl e \<or>
          (\<exists>q. resolve (disk w) (getcwd E) (os_path_join folder (f_name file)) = Inr q \<and>
               is_dir (disk w) q \<and> e = IsADirectoryError)) \<Longrightarrow>
         decode_and_write E file folder w =
           (Inl (OSError e), emit (Log INFO (WritingFile (f_name file))) w) \<Longrightarrow> P"
    "\<And>t q. decode_source E (file_source file) = Inr t \<Longrightarrow>
         resolve (disk w) (getcwd E) (os_path_join folder (f_name file)) = Inr q \<Longrightarrow>
         \<not> is_dir (disk w) q \<Longrightarrow> text_encode E t = None \<Longrightarrow>
         decode_and_write E file folder w =
           (Inl UnicodeEncodeError,
            w\<lparr>disk := AList.update q (File []) (disk w),
              events := events w @ [Log INFO (WritingFile (f_name file)),
                                    Wrote (os_path_join folder (f_name file))]\<rparr>) \<Longrightarrow> P"
    "\<And>t q bs. decode_source E (file_source file) = Inr t \<Longrightarrow>
         resolve (disk w) (getcwd E) (os_path_join folder (f_name file)) = Inr q \<Longrightarrow>
         \<not> is_dir (disk w) q \<Longrightarrow> text_encode E t = Some bs \<Longrightarrow>
         decode_and_write E file folder w =
           (Inr True,
            w\<lparr>disk := AList.update q (File bs) (AList.update q (File []) (disk w)),
              events := events w @ [Log INFO (WritingFile (f_name file)),
                                    Wrote (os_path_join folder (f_name file))]\<rparr>) \<Longrightarrow> P"
  shows P
proof (cases "decode_source E (file_source file)")
  case (Inl e)
  then show ?thesis using assms(1) by (simp add: decode_and_write_def)
next
  case (Inr t)
  note t = this
  show ?thesis
  proof (cases "resolve (disk w) (getcwd E) (os_path_join folder (f_name file))")
    case (Inl e)
    then show ?thesis using assms(2) [OF t, of e] t
      by (simp add: decode_and_write_def write_file_def open_w_def Let_def)
  next
    case (Inr q)
    note q = this
    show ?thesis
    proof (cases "is_dir (disk w) q")
      case True
      then show ?thesis using assms(2) [OF t, of IsADirectoryError] t q
        by (simp add: decode_and_write_def write_file_def open_w_def Let_def)
    next
      case False
      show ?thesis
      proof (cases "text_encode E t")
        case None
        then show ?thesis using assms(3) [OF t q False] t q False
          by (simp add: decode_and_write_def write_file_def open_w_def Let_def emit_def)
      next
        case (Some bs)
        then show ?thesis using assms(4) [OF t q False] t q False
          by (simp add: decode_and_write_def write_file_def open_w_def Let_def emit_def)
      qed
    qed
  qed
qed


lemma decode_and_write_frame:
  "repo (snd (decode_and_write E file folder w)) = repo w"
  "removed_paths (events (snd (decode_and_write E file folder w))) = removed_paths (events w)"
  "commits (events (snd (decode_and_write E file folder w))) = commits (events w)"
  "requested_ids (events (snd (decode_and_write E file folder w))) = requested_ids (events w)"
  by (cases E "file" folder w rule: decode_and_write_cases; simp)+

lemma decode_and_write_same_dirs:
  "same_dirs (disk w) (disk (snd (decode_and_write E file folder w)))"
proof (cases E "file" folder w rule: decode_and_write_cases)
  case (encode_error t q)
  then show ?thesis by (simp add: same_dirs_update_file)
next
  case (written t q bs)
  have "same_dirs (disk w) (AList.update q (File []) (disk w))"
    using written(3) by (rule same_dirs_update_file)
  moreover have "same_dirs (AList.update q (File []) (disk w))
                   (AList.update q (File bs) (AList.update q (File []) (disk w)))"
    using written(3) by (intro same_dirs_update_file) (auto simp: is_dir_def node_at_update)
  ultimately show ?thesis using written(5) by (auto intro: same_dirs_trans)
qed (simp_all add: same_dirs_refl)

lemma decode_and_write_elsewhere:
  "resolve (disk w) (getcwd E) (os_path_join folder (f_name file)) \<noteq> Inr q' \<Longrightarrow>
   node_at (disk (snd (decode_and_write E file folder w))) q' = node_at (disk w) q'"
  by (cases E "file" folder w rule: decode_and_write_cases) (auto simp: node_at_update)

lemma decode_and_write_not_False: "fst (decode_and_write E file folder w) \<noteq> Inr False"
  by (cases E "file" folder w rule: decode_and_write_cases) auto

lemma decode_and_write_True:
  assumes "fst (decode_and_write E file folder w) = Inr True"
  shows "\<exists>q t bs. resolve (disk w) (getcwd E) (os_path_join folder (f_name file)) = Inr q \<and>
           \<not> is_dir (disk w) q \<and>
           decode_source E (file_source file) = Inr t \<and> text_encode E t = Some bs \<and>
           node_at (disk (snd (decode_and_write E file folder w))) q = Some (File bs) \<and>
           wrote_paths (events (snd (decode_and_write E file folder w))) =
             wrote_paths (events w) @ [os_path_join folder (f_name file)]"
  using assms
  by (cases E "file" folder w rule: decode_and_write_cases) (auto simp: node_at_update is_dir_def)

lemma decode_and_write_wrote:
  "wrote_paths (events (snd (decode_and_write E file folder w))) = wrote_paths (events w) \<and>
     (\<exists>e. fst (decode_and_write E file folder w) = Inl e \<and> e \<noteq> UnicodeEncodeError) \<or>
   wrote_paths (events (snd (decode_and_write E file folder w))) =
     wrote_paths (events w) @ [os_path_join folder (f_name file)] \<and>
     (fst (decode_and_write E file folder w) = Inr True \<or>
      fst (decode_and_write E file folder w) = Inl UnicodeEncodeError)"
  by (cases E "file" folder w rule: decode_and_write_cases)
     (auto simp: decode_source_def split: option.splits)

subsection \<open>Lemmas on process_file\<close>

lemma process_file_frame:
  "repo (snd (process_file E file folder w)) = repo w"
  "removed_paths (events (snd (process_file E file folder w))) = removed_paths (events w)"
  "commits (events (snd (process_file E file folder w))) = commits (events w)"
  "requested_ids (events (snd (process_file E file folder w))) = requested_ids (events w)"
  by (cases "up_to_date E (disk w) (os_path_join folder (f_name file)) (f_sha file)";
      simp add: process_file_up_to_date process_file_not_up_to_date decode_and_write_frame)+

lemma process_file_same_dirs: "same_dirs (disk w) (disk (snd (process_file E file folder w)))"
proof (cases "up_to_date E (disk w) (os_path_join folder (f_name file)) (f_sha file)")
  case True
  then show ?thesis by (simp add: process_file_up_to_date same_dirs_refl)
next
  case False
  then show ?thesis
    using decode_and_write_same_dirs
      [of "emit (Log DEBUG (ProcessingFile (f_id file) (f_name file) (f_sha file))) w" E "file" folder]
    by (simp add: process_file_not_up_to_date)
qed

lemma process_file_elsewhere:
  "resolve (disk w) (getcwd E) (os_path_join folder (f_name file)) \<noteq> Inr q' \<Longrightarrow>
   node_at (disk (snd (process_file E file folder w))) q' = node_at (disk w) q'"
  by (cases "up_to_date E (disk w) (os_path_join folder (f_name file)) (f_sha file)")
     (simp_all add: process_file_up_to_date process_file_not_up_to_date decode_and_write_elsewhere)

lemma process_file_False_iff:
  "fst (process_file E file folder w) = Inr False \<longleftrightarrow>
   up_to_date E (disk w) (os_path_join folder (f_name file)) (f_sha file)"
  by (cases "up_to_date E (disk w) (os_path_join folder (f_name file)) (f_sha file)")
     (simp_all add: process_file_up_to_date process_file_not_up_to_date decode_and_write_not_False)

lemma process_file_True:
  assumes "fst (process_file E file folder w) = Inr True"
  shows "\<exists>q t bs. resolve (disk w) (getcwd E) (os_path_join folder (f_name file)) = Inr q \<and>
           \<not> is_dir (disk w) q \<and>
           decode_source E (file_source file) = Inr t \<and> text_encode E t = Some bs \<and>
           node_at (disk (snd (process_file E file folder w))) q = Some (File bs) \<and>
           wrote_paths (events (snd (process_file E file folder w))) =
             wrote_paths (events w) @ [os_path_join folder (f_name file)]"
proof (cases "up_to_date E (disk w) (os_path_join folder (f_name file)) (f_sha file)")
  case True
  then show ?thesis using assms by (simp add: process_file_up_to_date)
next
  case False
  then show ?thesis
    using assms decode_and_write_True
      [of E "file" folder "emit (Log DEBUG (ProcessingFile (f_id file) (f_name file) (f_sha file))) w"]
    by (simp add: process_file_not_up_to_date)
qed

lemma process_file_wrote:
  "fst (process_file E file folder w) = Inr b \<Longrightarrow>
   wrote_paths (events (snd (process_file E file folder w))) =
     wrote_paths (events w) @ (if b then [os_path_join folder (f_name file)] else [])"
proof (cases "up_to_date E (disk w) (os_path_join folder (f_name file)) (f_sha file)")
  case True
  moreover assume "fst (process_file E file folder w) = Inr b"
  ultimately show ?thesis by (simp add: process_file_up_to_date)
next
  case False
  moreover assume "fst (process_file E file folder w) = Inr b"
  ultimately show ?thesis
    using decode_and_write_wrote
      [of E "file" folder "emit (Log DEBUG (ProcessingFile (f_id file) (f_name file) (f_sha file))) w"]
      decode_and_write_not_False
      [of E "file" folder "emit (Log DEBUG (ProcessingFile (f_id file) (f_name file) (f_sha file))) w"]
    by (auto simp: process_file_not_up_to_date)
qed

lemma process_file_wrote_any:
  "\<exists>xs. wrote_paths (events (snd (process_file E file folder w))) = wrote_paths (events w) @ xs \<and>
        set xs \<subseteq> {os_path_join folder (f_name file)}"
proof (cases "up_to_date E (disk w) (os_path_join folder (f_name file)) (f_sha file)")
  case True
  then show ?thesis by (simp add: process_file_up_to_date)
next
  case False
  then show ?thesis
    using decode_and_write_wrote
      [of E "file" folder "emit (Log DEBUG (ProcessingFile (f_id file) (f_name file) (f_sha file))) w"]
    by (auto simp: process_file_not_up_to_date)
qed

lemma read_bytes_iff:
  "read_bytes fs wd p = Inr b \<longleftrightarrow> (\<exists>q. resolve fs wd p = Inr q \<and> node_at fs q = Some (File b))"
  by (auto simp: read_bytes_def split: sum.splits option.splits node.splits)

lemma os_path_isfile_iff:
  "os_path_isfile fs wd p \<longleftrightarrow> (\<exists>q b. resolve fs wd p = Inr q \<and> node_at fs q = Some (File b))"
  by (auto simp: os_path_isfile_def is_file_def split: sum.splits option.splits node.splits)

lemma up_to_date_alt:
  "up_to_date E fs p sha \<longleftrightarrow>
     os_path_isfile fs (getcwd E) p \<and>
     \<not> (\<exists>b. read_bytes fs (getcwd E) p = Inr b \<and> sha256_hexdigest E b \<noteq> sha)"
  by (auto simp: up_to_date_iff read_bytes_iff os_path_isfile_iff)

lemma process_file_True_read:
  assumes "fst (process_file E file folder w) = Inr True"
  shows "\<exists>t bs. decode_source E (file_source file) = Inr t \<and> text_encode E t = Some bs \<and>
           read_bytes (disk (snd (process_file E file folder w))) (getcwd E)
             (os_path_join folder (f_name file)) = Inr bs"
proof -
  from process_file_True [OF assms] obtain q t bs where
    q: "resolve (disk w) (getcwd E) (os_path_join folder (f_name file)) = Inr q" and
    t: "decode_source E (file_source file) = Inr t" "text_encode E t = Some bs" and
    n: "node_at (disk (snd (process_file E file folder w))) q = Some (File bs)"
    by blast
  from q have "resolve (disk (snd (process_file E file folder w))) (getcwd E)
                 (os_path_join folder (f_name file)) = Inr q"
    using resolve_same_dirs [OF process_file_same_dirs] by blast
  with n t show ?thesis by (auto simp: read_bytes_iff)
qed

lemma decode_and_write_ok:
  assumes "decode_source E (file_source file) = Inr t" and "text_encode E t = Some bs"
    and "open_w (disk w) (getcwd E) (os_path_join folder (f_name file)) = Inr (q, fs1)"
  shows "fst (decode_and_write E file folder w) = Inr True"
  using assms
  by (cases E "file" folder w rule: decode_and_write_cases)
     (auto simp: open_w_def split: sum.splits if_splits)

subsection \<open>Lemmas on the fetch loop\<close>

lemma fetch_loop_Cons:
  "fetch_loop E tok folder (i # ids) c w =
     (case api_file E tok i of
        Inl r \<Rightarrow> (Inl (Request r), emit (Requested (GetFile i)) w)
      | Inr file \<Rightarrow>
          (case fst (process_file E file folder (emit (Requested (GetFile i)) w)) of
             Inl e \<Rightarrow> (Inl e, snd (process_file E file folder (emit (Requested (GetFile i)) w)))
           | Inr b \<Rightarrow>
               fetch_loop E tok folder ids (b \<or> c)
                 (snd (process_file E file folder (emit (Requested (GetFile i)) w)))))"
  by (simp add: Let_def split: prod.splits sum.splits)

lemmas fetch_loop_simps = fetch_loop.simps(1) fetch_loop_Cons

declare fetch_loop.simps [simp del]

lemma fetch_loop_frame:
  "repo (snd (fetch_loop E tok folder ids c w)) = repo w \<and>
   removed_paths (events (snd (fetch_loop E tok folder ids c w))) = removed_paths (events w) \<and>
   commits (events (snd (fetch_loop E tok folder ids c w))) = commits (events w)"
proof (induction ids arbitrary: c w)
  case Nil
  show ?case by (simp add: fetch_loop_simps)
next
  case (Cons i ids)
  show ?case
    by (simp add: fetch_loop_simps Cons process_file_frame split: sum.splits)
qed

lemma fetch_loop_same_dirs:
  "same_dirs (disk w) (disk (snd (fetch_loop E tok folder ids c w)))"
proof (induction ids arbitrary: c w)
  case Nil
  show ?case by (simp add: fetch_loop_simps same_dirs_refl)
next
  case (Cons i ids)
  have step: "same_dirs (disk w)
        (disk (snd (process_file E f folder (emit (Requested (GetFile i)) w))))" for f
    using process_file_same_dirs [of "emit (Requested (GetFile i)) w" E f folder] by simp
  show ?case
    by (auto simp: fetch_loop_simps same_dirs_refl step split: sum.splits
        intro: same_dirs_trans [OF step Cons])
qed

lemma fetch_loop_wrote_prefix:
  "\<exists>xs. wrote_paths (events (snd (fetch_loop E tok folder ids c w))) = wrote_paths (events w) @ xs"
proof (induction ids arbitrary: c w)
  case Nil
  show ?case by (simp add: fetch_loop_simps)
next
  case (Cons i ids)
  have step: "\<exists>xs. wrote_paths (events (snd (process_file E f folder (emit (Requested (GetFile i)) w))))
                  = wrote_paths (events w) @ xs" for f
    using process_file_wrote_any [of E f folder "emit (Requested (GetFile i)) w"] by auto
  show ?case
  proof (cases "api_file E tok i")
    case (Inl r)
    then show ?thesis by (simp add: fetch_loop_simps)
  next
    case (Inr f)
    from step [of f] obtain xs where
      xs: "wrote_paths (events (snd (process_file E f folder (emit (Requested (GetFile i)) w))))
             = wrote_paths (events w) @ xs" ..
    show ?thesis
    proof (cases "fst (process_file E f folder (emit (Requested (GetFile i)) w))")
      case (Inl e)
      with Inr xs show ?thesis by (simp add: fetch_loop_simps)
    next
      case b: (Inr b)
      from Cons [of "b \<or> c" "snd (process_file E f folder (emit (Requested (GetFile i)) w))"]
      obtain ys where "wrote_paths (events (snd (fetch_loop E tok folder ids (b \<or> c)
                  (snd (process_file E f folder (emit (Requested (GetFile i)) w))))))
             = (wrote_paths (events w) @ xs) @ ys"
        unfolding xs by blast
      with Inr b show ?thesis by (simp add: fetch_loop_simps)
    qed
  qed
qed

lemma fetch_loop_flag:
  "fst (fetch_loop E tok folder ids c w) = Inr c' \<Longrightarrow>
   c' = (c \<or> wrote_paths (events (snd (fetch_loop E tok folder ids c w))) \<noteq> wrote_paths (events w))"
proof (induction ids arbitrary: c w)
  case Nil
  then show ?case by (simp add: fetch_loop_simps)
next
  case (Cons i ids)
  let ?w1 = "emit (Requested (GetFile i)) w"
  from Cons.prems obtain f where f: "api_file E tok i = Inr f"
    by (cases "api_file E tok i") (auto simp: fetch_loop_simps)
  from Cons.prems f obtain b where b: "fst (process_file E f folder ?w1) = Inr b"
    by (cases "fst (process_file E f folder ?w1)") (auto simp: fetch_loop_simps)
  let ?w2 = "snd (process_file E f folder ?w1)"
  have eq: "fetch_loop E tok folder (i # ids) c w = fetch_loop E tok folder ids (b \<or> c) ?w2"
    using f b by (simp add: fetch_loop_simps)
  from process_file_wrote [OF b]
  have w2: "wrote_paths (events ?w2) =
              wrote_paths (events w) @ (if b then [os_path_join folder (f_name f)] else [])"
    by simp
  from fetch_loop_wrote_prefix [of E tok folder ids "b \<or> c" ?w2]
  obtain ys where ys: "wrote_paths (events (snd (fetch_loop E tok folder ids (b \<or> c) ?w2)))
                         = wrote_paths (events ?w2) @ ys" ..
  from Cons.prems have "fst (fetch_loop E tok folder ids (b \<or> c) ?w2) = Inr c'"
    by (simp add: eq)
  from Cons.IH [OF this]
  show ?case unfolding eq ys w2 by (cases b) auto
qed

lemma fetch_loop_requested:
  "fst (fetch_loop E tok folder ids c w) = Inr c' \<Longrightarrow>
   requested_ids (events (snd (fetch_loop E tok folder ids c w))) = requested_ids (events w) @ ids"
proof (induction ids arbitrary: c w)
  case Nil
  then show ?case by (simp add: fetch_loop_simps)
next
  case (Cons i ids)
  then show ?case
    by (auto simp: fetch_loop_simps process_file_frame split: sum.splits)
qed

lemma fetch_loop_requested_subset:
  "set (requested_ids (events (snd (fetch_loop E tok folder ids c w))))
     \<subseteq> set (requested_ids (events w)) \<union> set ids"
proof (induction ids arbitrary: c w)
  case Nil
  then show ?case by (simp add: fetch_loop_simps)
next
  case (Cons i ids)
  show ?case
    apply (simp add: fetch_loop_simps process_file_frame split: sum.splits)
    using Cons by (fastforce simp: process_file_frame)
qed

lemma fetch_loop_append:
  "fetch_loop E tok folder (xs @ ys) c w =
     (case fst (fetch_loop E tok folder xs c w) of
        Inl e \<Rightarrow> fetch_loop E tok folder xs c w
      | Inr c1 \<Rightarrow> fetch_loop E tok folder ys c1 (snd (fetch_loop E tok folder xs c w)))"
proof (induction xs arbitrary: c w)
  case Nil
  show ?case by (simp add: fetch_loop_simps)
next
  case (Cons i xs)
  show ?case
    by (simp add: fetch_loop_simps Cons split: sum.splits)
qed

lemma fetch_loop_fails:
  "i \<in> set ids \<Longrightarrow> api_file E tok i = Inl r \<Longrightarrow> \<exists>e. fst (fetch_loop E tok folder ids c w) = Inl e"
proof (induction ids arbitrary: c w)
  case Nil
  then show ?case by simp
next
  case (Cons j ids)
  then show ?case
    by (auto simp: fetch_loop_simps split: sum.splits)
qed

subsection \<open>Lemmas on the cleanup\<close>

lemma os_remove_Inr:
  "os_remove fs wd s = Inr fs' \<longleftrightarrow>
     (\<exists>q b. resolve fs wd s = Inr q \<and> node_at fs q = Some (File b) \<and> fs' = AList.delete q fs)"
  by (auto simp: os_remove_def split: sum.splits option.splits node.splits)

lemma os_remove_same_dirs: "os_remove fs wd s = Inr fs' \<Longrightarrow> same_dirs fs fs'"
  by (auto simp: os_remove_Inr is_dir_def intro!: same_dirs_delete_file)

lemma cleanup_loop_frame:
  "wrote_paths (events (snd (cleanup_loop E folder backup files c w))) = wrote_paths (events w) \<and>
   commits (events (snd (cleanup_loop E folder backup files c w))) = commits (events w) \<and>
   requested_ids (events (snd (cleanup_loop E folder backup files c w))) = requested_ids (events w)"
proof (induction files arbitrary: c w)
  case Nil
  show ?case by simp
next
  case (Cons f files)
  show ?case
    by (simp add: Cons Let_def split: sum.splits option.splits)
qed

lemma cleanup_loop_same_dirs:
  "same_dirs (disk w) (disk (snd (cleanup_loop E folder backup files c w)))"
proof (induction files arbitrary: c w)
  case Nil
  show ?case by (simp add: same_dirs_refl)
next
  case (Cons f files)
  show ?case
  proof (cases "f \<in> set backup")
    case True
    then show ?thesis using Cons by simp
  next
    case False
    show ?thesis
    proof (cases "os_remove (disk w) (getcwd E) (os_path_join folder f)")
      case (Inl e)
      with False show ?thesis by (simp add: same_dirs_refl)
    next
      case (Inr fs1)
      note sd = os_remove_same_dirs [OF Inr]
      show ?thesis
      proof (cases "git_index_remove E (repo w) f")
        case None
        with False Inr sd show ?thesis by (simp add: Let_def)
      next
        case (Some g)
        let ?w1 = "emit (IndexRemoved f)
                     (emit (Removed (os_path_join folder f)) (w\<lparr>disk := fs1\<rparr>)\<lparr>repo := g\<rparr>)"
        have "same_dirs (disk ?w1) (disk (snd (cleanup_loop E folder backup files True ?w1)))"
          by (rule Cons)
        then have "same_dirs (disk w) (disk (snd (cleanup_loop E folder backup files True ?w1)))"
          using sd by (auto intro: same_dirs_trans)
        with False Inr Some show ?thesis by (simp add: Let_def)
      qed
    qed
  qed
qed

lemma cleanup_loop_removed:
  "fst (cleanup_loop E folder backup files c w) = Inr c' \<Longrightarrow>
   removed_paths (events (snd (cleanup_loop E folder backup files c w))) =
     removed_paths (events w) @ map (os_path_join folder) (filter (\<lambda>f. f \<notin> set backup) files) \<and>
   c' = (c \<or> (\<exists>f \<in> set files. f \<notin> set backup))"
proof (induction files arbitrary: c w)
  case Nil
  then show ?case by simp
next
  case (Cons f files)
  show ?case
  proof (cases "f \<in> set backup")
    case True
    with Cons show ?thesis by simp
  next
    case False
    from Cons.prems False obtain fs1 where
      fs1: "os_remove (disk w) (getcwd E) (os_path_join folder f) = Inr fs1"
      by (cases "os_remove (disk w) (getcwd E) (os_path_join folder f)") auto
    from Cons.prems False fs1 obtain g where g: "git_index_remove E (repo w) f = Some g"
      by (cases "git_index_remove E (repo w) f") (auto simp: Let_def)
    let ?w1 = "emit (IndexRemoved f)
                 (emit (Removed (os_path_join folder f)) (w\<lparr>disk := fs1\<rparr>)\<lparr>repo := g\<rparr>)"
    have eq: "cleanup_loop E folder backup (f # files) c w =
              cleanup_loop E folder backup files True ?w1"
      using False fs1 g by (simp add: Let_def)
    have "fst (cleanup_loop E folder backup files True ?w1) = Inr c'"
      using Cons.prems unfolding eq .
    from Cons.IH [OF this] False show ?thesis
      unfolding eq by simp
  qed
qed

lemma cleanup_loop_removed_any:
  "\<exists>xs. removed_paths (events (snd (cleanup_loop E folder backup files c w))) =
          removed_paths (events w) @ map (os_path_join folder) xs \<and>
        set xs \<subseteq> set files - set backup"
proof (induction files arbitrary: c w)
  case Nil
  show ?case by simp
next
  case (Cons f files)
  show ?case
  proof (cases "f \<in> set backup")
    case True
    with Cons [of c w] show ?thesis by auto
  next
    case False
    show ?thesis
    proof (cases "os_remove (disk w) (getcwd E) (os_path_join folder f)")
      case (Inl e)
      with False show ?thesis by simp
    next
      case (Inr fs1)
      show ?thesis
      proof (cases "git_index_remove E (repo w) f")
        case None
        with False Inr have "removed_paths (events (snd (cleanup_loop E folder backup (f # files) c w)))
             = removed_paths (events w) @ map (os_path_join folder) [f]"
          by (simp add: Let_def)
        moreover have "set [f] \<subseteq> set (f # files) - set backup" using False by simp
        ultimately show ?thesis by blast
      next
        case (Some g)
        let ?w1 = "emit (IndexRemoved f)
                     (emit (Removed (os_path_join folder f)) (w\<lparr>disk := fs1\<rparr>)\<lparr>repo := g\<rparr>)"
        have eq: "cleanup_loop E folder backup (f # files) c w =
                  cleanup_loop E folder backup files True ?w1"
          using False Inr Some by (simp add: Let_def)
        from Cons [of True ?w1] obtain xs where
          xs: "removed_paths (events (snd (cleanup_loop E folder backup files True ?w1))) =
                 removed_paths (events ?w1) @ map (os_path_join folder) xs"
              "set xs \<subseteq> set files - set backup"
          by blast
        have "removed_paths (events (snd (cleanup_loop E folder backup (f # files) c w))) =
                removed_paths (events w) @ map (os_path_join folder) (f # xs)"
          unfolding eq xs(1) by simp
        moreover have "set (f # xs) \<subseteq> set (f # files) - set backup"
          using xs(2) False by auto
        ultimately show ?thesis by blast
      qed
    qed
  qed
qed

lemma cleanup_loop_nothing:
  "set files \<subseteq> set backup \<Longrightarrow> cleanup_loop E folder backup files c w = (Inr c, w)"
  by (induction files) auto

text \<open>Where the files of the mirror directory are after a cleanup that succeeded.\<close>

lemma cleanup_loop_disk:
  assumes "resolve (disk w) (getcwd E) folder = Inr d" and "is_dir (disk w) d"
    and "\<forall>f \<in> set files. plain f"
    and "fst (cleanup_loop E folder backup files c w) = Inr c'"
  shows "node_at (disk (snd (cleanup_loop E folder backup files c w))) q =
           (if q \<in> (\<lambda>f. d @ [f]) ` (set files - set backup) then None else node_at (disk w) q)"
  using assms
proof (induction files arbitrary: c w)
  case Nil
  then show ?case by simp
next
  case (Cons f files)
  show ?case
  proof (cases "f \<in> set backup")
    case True
    with Cons.prems have "fst (cleanup_loop E folder backup files c w) = Inr c'" by simp
    from Cons.IH [OF Cons.prems(1,2) _ this] Cons.prems(3) True
    show ?thesis by auto
  next
    case False
    from Cons.prems(4) False obtain fs1 where
      fs1: "os_remove (disk w) (getcwd E) (os_path_join folder f) = Inr fs1"
      by (cases "os_remove (disk w) (getcwd E) (os_path_join folder f)") auto
    from Cons.prems(4) False fs1 obtain g where g: "git_index_remove E (repo w) f = Some g"
      by (cases "git_index_remove E (repo w) f") (auto simp: Let_def)
    let ?w1 = "emit (IndexRemoved f)
                 (emit (Removed (os_path_join folder f)) (w\<lparr>disk := fs1\<rparr>)\<lparr>repo := g\<rparr>)"
    have eq: "cleanup_loop E folder backup (f # files) c w =
              cleanup_loop E folder backup files True ?w1"
      using False fs1 g by (simp add: Let_def)
    from Cons.prems(3) have pf: "plain f" by simp
    have r: "resolve (disk w) (getcwd E) (os_path_join folder f) = Inr (d @ [f])"
      by (rule resolve_join_plain [OF pf Cons.prems(1,2)])
    with fs1 have fs1_eq: "fs1 = AList.delete (d @ [f]) (disk w)"
      by (auto simp: os_remove_Inr)
    have sd: "same_dirs (disk w) fs1" by (rule os_remove_same_dirs [OF fs1])
    have 1: "resolve (disk ?w1) (getcwd E) folder = Inr d"
      using Cons.prems(1) resolve_same_dirs [OF sd] by simp
    have 2: "is_dir (disk ?w1) d"
      using Cons.prems(2) sd by (simp add: same_dirs_def)
    have 3: "\<forall>f \<in> set files. plain f" using Cons.prems(3) by simp
    have 4: "fst (cleanup_loop E folder backup files True ?w1) = Inr c'"
      using Cons.prems(4) unfolding eq .
    have n1: "node_at (disk ?w1) q = (if q = d @ [f] then None else node_at (disk w) q)"
      by (simp add: fs1_eq node_at_delete)
    from Cons.IH [OF 1 2 3 4] False show ?thesis
      unfolding eq n1 by auto
  qed
qed

subsection \<open>Lemmas on the commit\<close>

lemma main_commit_frame:
  "disk (snd (main_commit E push c w)) = disk w \<and>
   wrote_paths (events (snd (main_commit E push c w))) = wrote_paths (events w) \<and>
   removed_paths (events (snd (main_commit E push c w))) = removed_paths (events w) \<and>
   requested_ids (events (snd (main_commit E push c w))) = requested_ids (events w)"
  by (simp add: main_commit_def Let_def split: option.splits)

lemma main_commit_commits:
  "commits (events (snd (main_commit E push c w))) =
     commits (events w) +
     (if c \<or> git_is_dirty E (repo w) (disk w) then
        (case git_add_all E (repo w) (disk w) of
           None \<Rightarrow> 0
         | Some g1 \<Rightarrow> (case git_index_commit E g1 (commit_message E) of None \<Rightarrow> 0 | Some g2 \<Rightarrow> 1))
      else 0)"
  by (simp add: main_commit_def Let_def split: option.splits)

subsection \<open>Lemmas on the whole run\<close>

lemma main_sync_login_fails:
  "api_login E = Inl r \<Longrightarrow> main_sync E folder w = (Inl (Request r), emit (Requested Login) w)"
  by (simp add: main_sync_def)

lemma main_sync_list_fails:
  "api_login E = Inr tok \<Longrightarrow> api_files E tok = Inl r \<Longrightarrow>
   main_sync E folder w =
     (Inl (Request r), emit (Requested ListFiles) (emit (Requested Login) w))"
  by (simp add: main_sync_def)

lemma main_sync_unfold:
  "api_login E = Inr tok \<Longrightarrow> api_files E tok = Inr files \<Longrightarrow>
   main_sync E folder w =
     (case fst (fetch_loop E tok folder (file_ids files) False
                  (emit (Requested ListFiles) (emit (Requested Login) w))) of
        Inl e \<Rightarrow> fetch_loop E tok folder (file_ids files) False
                  (emit (Requested ListFiles) (emit (Requested Login) w))
      | Inr c \<Rightarrow>
          cleanup_loop E folder (files_to_backup files)
            (os_walk_files (disk w) (getcwd E) folder) c
            (snd (fetch_loop E tok folder (file_ids files) False
                    (emit (Requested ListFiles) (emit (Requested Login) w)))))"
  by (auto simp: main_sync_def Let_def split: prod.splits sum.splits)

lemma main_sync_cases [case_names login_fails list_fails fetch_fails cleaned]:
  assumes
    "\<And>r. api_login E = Inl r \<Longrightarrow>
        main_sync E folder w = (Inl (Request r), emit (Requested Login) w) \<Longrightarrow> P"
    "\<And>tok r. api_login E = Inr tok \<Longrightarrow> api_files E tok = Inl r \<Longrightarrow>
        main_sync E folder w =
          (Inl (Request r), emit (Requested ListFiles) (emit (Requested Login) w)) \<Longrightarrow> P"
    "\<And>tok files e. api_login E = Inr tok \<Longrightarrow> api_files E tok = Inr files \<Longrightarrow>
        fst (fetch_loop E tok folder (file_ids files) False
               (emit (Requested ListFiles) (emit (Requested Login) w))) = Inl e \<Longrightarrow>
        main_sync E folder w =
          fetch_loop E tok folder (file_ids files) False
            (emit (Requested ListFiles) (emit (Requested Login) w)) \<Longrightarrow> P"
    "\<And>tok files c. api_login E = Inr tok \<Longrightarrow> api_files E tok = Inr files \<Longrightarrow>
        fst (fetch_loop E tok folder (file_ids files) False
               (emit (Requested ListFiles) (emit (Requested Login) w))) = Inr c \<Longrightarrow>
        main_sync E folder w =
          cleanup_loop E folder (files_to_backup files)
            (os_walk_files (disk w) (getcwd E) folder) c
            (snd (fetch_loop E tok folder (file_ids files) False
                    (emit (Requested ListFiles) (emit (Requested Login) w)))) \<Longrightarrow> P"
  shows P
proof (cases "api_login E")
  case (Inl r)
  then show ?thesis using assms(1) main_sync_login_fails by blast
next
  case (Inr tok)
  note tok = this
  show ?thesis
  proof (cases "api_files E tok")
    case (Inl r)
    then show ?thesis using assms(2) tok main_sync_list_fails by blast
  next
    case (Inr files)
    note files = this
    show ?thesis
    proof (cases "fst (fetch_loop E tok folder (file_ids files) False
               (emit (Requested ListFiles) (emit (Requested Login) w)))")
      case (Inl e)
      then show ?thesis
        using assms(3) [OF tok files Inl] main_sync_unfold [OF tok files, of folder w] by simp
    next
      case (Inr c)
      then show ?thesis
        using assms(4) [OF tok files Inr] main_sync_unfold [OF tok files, of folder w] by simp
    qed
  qed
qed

lemma main_sync_commits:
  "commits (events (snd (main_sync E folder w))) = commits (events w)"
  by (cases E folder w rule: main_sync_cases)
     (simp_all add: fetch_loop_frame cleanup_loop_frame)

lemma main_sync_flag:
  assumes "fst (main_sync E folder w) = Inr c"
  shows "c \<longleftrightarrow> wrote_paths (events (snd (main_sync E folder w))) \<noteq> wrote_paths (events w) \<or>
             removed_paths (events (snd (main_sync E folder w))) \<noteq> removed_paths (events w)"
proof (cases E folder w rule: main_sync_cases)
  case (cleaned tok files c0)
  let ?w2 = "emit (Requested ListFiles) (emit (Requested Login) w)"
  let ?w3 = "snd (fetch_loop E tok folder (file_ids files) False ?w2)"
  let ?disk = "os_walk_files (disk w) (getcwd E) folder"
  from assms cleaned(4)
  have k: "fst (cleanup_loop E folder (files_to_backup files) ?disk c0 ?w3) = Inr c" by simp
  note r = cleanup_loop_removed [OF k]
  have f: "c0 = (wrote_paths (events ?w3) \<noteq> wrote_paths (events w))"
    using fetch_loop_flag [OF cleaned(3)] by simp
  have r3: "removed_paths (events ?w3) = removed_paths (events w)"
    using fetch_loop_frame [of E tok folder "file_ids files" False ?w2] by simp
  have "(\<exists>f \<in> set ?disk. f \<notin> set (files_to_backup files)) \<longleftrightarrow>
        filter (\<lambda>f. f \<notin> set (files_to_backup files)) ?disk \<noteq> []"
    by (simp add: filter_empty_conv)
  with r f r3 show ?thesis
    unfolding cleaned(4) by (simp add: cleanup_loop_frame)
qed (use assms in simp_all)

lemma main_try_unfold:
  "main_try E folder push w =
     (case fst (main_sync E folder w) of
        Inl e \<Rightarrow> (Inl e, snd (main_sync E folder w))
      | Inr c \<Rightarrow> main_commit E push c (snd (main_sync E folder w)))"
  by (auto simp: main_try_def split: prod.splits sum.splits)

lemma main_try_fetch_fails:
  assumes "api_login E = Inr tok" and "api_files E tok = Inr files"
    and "fst (fetch_loop E tok folder (file_ids files) False
               (emit (Requested ListFiles) (emit (Requested Login) w))) = Inl e"
  shows "main_try E folder push w =
           (Inl e, snd (fetch_loop E tok folder (file_ids files) False
               (emit (Requested ListFiles) (emit (Requested Login) w))))"
  using assms by (simp add: main_try_unfold main_sync_unfold)

lemma fetch_loop_stops_at:
  assumes "fst (fetch_loop E tok folder pre c0 w) = Inr c"
    and "api_file E tok i = Inl r"
  shows "fetch_loop E tok folder (pre @ i # post) c0 w =
           (Inl (Request r), emit (Requested (GetFile i)) (snd (fetch_loop E tok folder pre c0 w)))"
  using assms by (simp add: fetch_loop_append fetch_loop_simps)

lemma main_try_frame_on_fetch_failure:
  assumes "api_login E = Inr tok" and "api_files E tok = Inr files"
    and "fst (fetch_loop E tok folder (file_ids files) False
               (emit (Requested ListFiles) (emit (Requested Login) w))) = Inl e"
  shows "commits (events (snd (main_try E folder push w))) = commits (events w) \<and>
         removed_paths (events (snd (main_try E folder push w))) = removed_paths (events w) \<and>
         repo (snd (main_try E folder push w)) = repo w"
  using fetch_loop_frame [of E tok folder "file_ids files" False
          "emit (Requested ListFiles) (emit (Requested Login) w)"]
  by (simp add: main_try_fetch_fails [OF assms])

lemma decode_source_utf8_fails:
  "b64decode E s = Some bs \<Longrightarrow> utf8_decode E bs = None \<Longrightarrow>
   decode_source E s = Inl UnicodeDecodeError"
  by (simp add: decode_source_def)

lemma fetch_loop_stops_at_exception:
  assumes "fst (fetch_loop E tok folder pre c0 w) = Inr c"
    and "api_file E tok i = Inr f"
    and "fst (process_file E f folder
                (emit (Requested (GetFile i)) (snd (fetch_loop E tok folder pre c0 w)))) = Inl e"
  shows "fetch_loop E tok folder (pre @ i # post) c0 w =
           (Inl e, snd (process_file E f folder
                (emit (Requested (GetFile i)) (snd (fetch_loop E tok folder pre c0 w)))))"
  using assms by (simp add: fetch_loop_append fetch_loop_simps)

subsection \<open>Lemmas for the cleanup of orphans\<close>

lemma is_changed_api_files [simp]:
  "is_changed (E\<lparr>api_files := x\<rparr>) b sha = is_changed E b sha"
  by (simp add: is_changed_def)

lemma decode_source_api_files [simp]:
  "decode_source (E\<lparr>api_files := x\<rparr>) s = decode_source E s"
  by (simp add: decode_source_def split: option.splits)

lemma write_file_api_files [simp]:
  "write_file (E\<lparr>api_files := x\<rparr>) n t folder w = write_file E n t folder w"
  by (simp add: write_file_def Let_def split: sum.splits prod.splits option.splits)

lemma decode_and_write_api_files [simp]:
  "decode_and_write (E\<lparr>api_files := x\<rparr>) f folder w = decode_and_write E f folder w"
  by (simp add: decode_and_write_def split: sum.splits)

lemma process_file_api_files [simp]:
  "process_file (E\<lparr>api_files := x\<rparr>) f folder w = process_file E f folder w"
  by (simp add: process_file_def Let_def split: sum.splits)

lemma fetch_loop_api_files [simp]:
  "fetch_loop (E\<lparr>api_files := x\<rparr>) tok folder ids c w = fetch_loop E tok folder ids c w"
  by (induction ids arbitrary: c w) (simp_all add: fetch_loop_simps split: sum.splits)

lemma cleanup_loop_api_files [simp]:
  "cleanup_loop (E\<lparr>api_files := x\<rparr>) folder backup files c w =
   cleanup_loop E folder backup files c w"
  by (induction files arbitrary: c w) (simp_all add: Let_def split: sum.splits option.splits)

lemma main_sync_deployed_only:
  assumes "api_login E = Inr tok" and "api_files E tok = Inr files"
  shows "main_sync (E\<lparr>api_files := \<lambda>t. Inr (filter e_deployed files)\<rparr>) folder w =
         main_sync E folder w"
proof -
  have "file_ids (filter e_deployed files) = file_ids files"
    "files_to_backup (filter e_deployed files) = files_to_backup files"
    by (simp_all add: file_ids_def files_to_backup_def)
  with assms show ?thesis
    by (simp add: main_sync_def Let_def split: prod.splits sum.splits)
qed

lemma fetch_loop_wrote_from:
  "\<exists>xs. wrote_paths (events (snd (fetch_loop E tok folder ids c w))) = wrote_paths (events w) @ xs \<and>
        set xs \<subseteq> {os_path_join folder (f_name f) | i f. i \<in> set ids \<and> api_file E tok i = Inr f}"
proof (induction ids arbitrary: c w)
  case Nil
  show ?case by (simp add: fetch_loop_simps)
next
  case (Cons i ids)
  let ?T = "\<lambda>ids. {os_path_join folder (f_name f) | j f. j \<in> set ids \<and> api_file E tok j = Inr f}"
  have mono: "?T ids \<subseteq> ?T (i # ids)" by auto
  show ?case
  proof (cases "api_file E tok i")
    case (Inl r)
    then show ?thesis by (simp add: fetch_loop_simps)
  next
    case (Inr f)
    let ?w1 = "emit (Requested (GetFile i)) w"
    from process_file_wrote_any [of E f folder ?w1] obtain xs where
      xs: "wrote_paths (events (snd (process_file E f folder ?w1))) = wrote_paths (events w) @ xs"
          "set xs \<subseteq> {os_path_join folder (f_name f)}"
      by auto
    from xs(2) Inr have xs': "set xs \<subseteq> ?T (i # ids)" by auto
    show ?thesis
    proof (cases "fst (process_file E f folder ?w1)")
      case (Inl e)
      with Inr xs xs' show ?thesis by (simp add: fetch_loop_simps)
    next
      case b: (Inr b)
      from Cons [of "b \<or> c" "snd (process_file E f folder ?w1)"] obtain ys where
        ys: "wrote_paths (events (snd (fetch_loop E tok folder ids (b \<or> c)
                   (snd (process_file E f folder ?w1))))) =
             wrote_paths (events (snd (process_file E f folder ?w1))) @ ys"
            "set ys \<subseteq> ?T ids"
        by blast
      have "wrote_paths (events (snd (fetch_loop E tok folder (i # ids) c w))) =
              wrote_paths (events w) @ (xs @ ys)"
        using Inr b ys(1) xs(1) by (simp add: fetch_loop_simps)
      moreover have "set (xs @ ys) \<subseteq> ?T (i # ids)"
        using xs' ys(2) mono by auto
      ultimately show ?thesis by blast
    qed
  qed
qed

lemma os_walk_files_cases:
  assumes "f \<in> set (os_walk_files fs wd folder)"
  obtains d where "resolve fs wd folder = Inr d" "is_dir fs d"
    "os_walk_files fs wd folder = listing fs d" "plain f" "is_file fs (d @ [f])"
proof -
  from assms obtain d where r: "resolve fs wd folder = Inr d"
    by (cases "resolve fs wd folder") (auto simp: os_walk_files_def)
  with assms have "is_dir fs d"
    by (cases "is_dir fs d") (auto simp: os_walk_files_def)
  with r have d: "resolve fs wd folder = Inr d" "is_dir fs d"
    "os_walk_files fs wd folder = listing fs d"
    by (simp_all add: os_walk_files_def)
  with assms have "f \<in> set (listing fs d)" by simp
  then have "plain f" "is_file fs (d @ [f])" by (simp_all add: set_listing)
  with d show ?thesis by (rule that)
qed

lemma os_walk_files_plain: "f \<in> set (os_walk_files fs wd folder) \<Longrightarrow> plain f"
  by (erule os_walk_files_cases)

lemma main_sync_orphan_gone:
  assumes tok: "api_login E = Inr tok" and files: "api_files E tok = Inr files"
    and ok: "fst (main_sync E folder w) = Inr c"
    and f: "f \<in> set (os_walk_files (disk w) (getcwd E) folder)"
    and nf: "f \<notin> set (files_to_backup files)"
  shows "\<not> os_path_isfile (disk (snd (main_sync E folder w))) (getcwd E) (os_path_join folder f)"
proof -
  let ?w2 = "emit (Requested ListFiles) (emit (Requested Login) w)"
  let ?fl = "fetch_loop E tok folder (file_ids files) False ?w2"
  let ?ls = "os_walk_files (disk w) (getcwd E) folder"
  from f obtain d where d: "resolve (disk w) (getcwd E) folder = Inr d" "is_dir (disk w) d"
    and pf: "plain f"
    by (rule os_walk_files_cases)
  from ok obtain c0 where c0: "fst ?fl = Inr c0"
    using main_sync_unfold [OF tok files, of folder w]
    by (cases "fst ?fl") auto
  have ms: "main_sync E folder w =
              cleanup_loop E folder (files_to_backup files) ?ls c0 (snd ?fl)"
    using main_sync_unfold [OF tok files, of folder w] c0 by simp
  have sd3: "same_dirs (disk w) (disk (snd ?fl))"
    using fetch_loop_same_dirs [of ?w2 E tok folder "file_ids files" False] by simp
  have d3: "resolve (disk (snd ?fl)) (getcwd E) folder = Inr d" "is_dir (disk (snd ?fl)) d"
    using d resolve_same_dirs [OF sd3] sd3 by (simp_all add: same_dirs_def)
  have pl: "\<forall>f \<in> set ?ls. plain f" by (simp add: os_walk_files_plain)
  have k: "fst (cleanup_loop E folder (files_to_backup files) ?ls c0 (snd ?fl)) = Inr c"
    using ok by (simp add: ms)
  have gone: "node_at (disk (snd (main_sync E folder w))) (d @ [f]) = None"
    unfolding ms using cleanup_loop_disk [OF d3 pl k, of "d @ [f]"] f nf by auto
  have sd1: "same_dirs (disk (snd ?fl)) (disk (snd (main_sync E folder w)))"
    unfolding ms by (rule cleanup_loop_same_dirs)
  have d1: "resolve (disk (snd (main_sync E folder w))) (getcwd E) folder = Inr d"
    "is_dir (disk (snd (main_sync E folder w))) d"
    using d3 resolve_same_dirs [OF sd1] sd1 by (simp_all add: same_dirs_def)
  from resolve_join_plain [OF pf d1] gone show ?thesis
    by (simp add: os_path_isfile_def is_file_def)
qed

lemma main_sync_removed_any:
  "\<exists>fs. removed_paths (events (snd (main_sync E folder w))) =
          removed_paths (events w) @ map (os_path_join folder) fs \<and>
        set fs \<subseteq> set (os_walk_files (disk w) (getcwd E) folder)"
proof (cases E folder w rule: main_sync_cases)
  case (cleaned tok files c)
  let ?w3 = "snd (fetch_loop E tok folder (file_ids files) False
                    (emit (Requested ListFiles) (emit (Requested Login) w)))"
  from cleanup_loop_removed_any
         [of E folder "files_to_backup files" "os_walk_files (disk w) (getcwd E) folder" c ?w3]
  obtain fs where
    "removed_paths (events (snd (main_sync E folder w))) =
       removed_paths (events ?w3) @ map (os_path_join folder) fs"
    "set fs \<subseteq> set (os_walk_files (disk w) (getcwd E) folder)"
    unfolding cleaned(4) by auto
  moreover have "removed_paths (events ?w3) = removed_paths (events w)"
    using fetch_loop_frame [of E tok folder "file_ids files" False
            "emit (Requested ListFiles) (emit (Requested Login) w)"]
    by simp
  ultimately show ?thesis by auto
next
  case (fetch_fails tok files e)
  have "removed_paths (events (snd (main_sync E folder w))) =
          removed_paths (events w) @ map (os_path_join folder) []"
    unfolding fetch_fails(4)
    using fetch_loop_frame [of E tok folder "file_ids files" False
            "emit (Requested ListFiles) (emit (Requested Login) w)"]
    by simp
  then show ?thesis by (intro exI [of _ "[]"]) simp
qed (auto intro: exI [of _ "[]"])

lemma main_sync_requested_subset:
  assumes "api_login E = Inr tok" and "api_files E tok = Inr files"
  shows "set (requested_ids (events (snd (main_sync E folder w))))
           \<subseteq> set (requested_ids (events w)) \<union> set (file_ids files)"
  using fetch_loop_requested_subset [of E tok folder "file_ids files" False
          "emit (Requested ListFiles) (emit (Requested Login) w)"]
  by (auto simp: main_sync_unfold [OF assms] cleanup_loop_frame split: sum.splits)

lemma main_sync_wrote_from:
  assumes tok: "api_login E = Inr tok" and files: "api_files E tok = Inr files"
  shows "\<forall>p \<in> set (wrote_paths (events (snd (main_sync E folder w)))) - set (wrote_paths (events w)).
           \<exists>e \<in> set files. e_deployed e \<and>
             (\<exists>f. api_file E tok (e_id e) = Inr f \<and> p = os_path_join folder (f_name f))"
proof
  let ?w2 = "emit (Requested ListFiles) (emit (Requested Login) w)"
  let ?fl = "fetch_loop E tok folder (file_ids files) False ?w2"
  fix p
  assume p: "p \<in> set (wrote_paths (events (snd (main_sync E folder w)))) - set (wrote_paths (events w))"
  from fetch_loop_wrote_from [of E tok folder "file_ids files" False ?w2] obtain xs where
    xs: "wrote_paths (events (snd ?fl)) = wrote_paths (events w) @ xs"
        "set xs \<subseteq> {os_path_join folder (f_name f) | i f.
                      i \<in> set (file_ids files) \<and> api_file E tok i = Inr f}"
    by auto
  have "wrote_paths (events (snd (main_sync E folder w))) = wrote_paths (events w) @ xs"
    using xs(1) by (simp add: main_sync_unfold [OF tok files] cleanup_loop_frame split: sum.splits)
  with p have "p \<in> set xs" by auto
  with xs(2) obtain i f where "i \<in> set (file_ids files)" "api_file E tok i = Inr f"
    "p = os_path_join folder (f_name f)"
    by blast
  then show "\<exists>e \<in> set files. e_deployed e \<and>
          (\<exists>f. api_file E tok (e_id e) = Inr f \<and> p = os_path_join folder (f_name f))"
    by (auto simp: file_ids_def)
qed

subsection \<open>Lemmas for idempotence\<close>

lemma entry_synced_iff:
  "entry_synced E tok fs d e \<longleftrightarrow>
     (\<exists>f bs. api_file E tok (e_id e) = Inr f \<and> node_at fs (d @ [e_name e]) = Some (File bs) \<and>
             sha256_hexdigest E bs = f_sha f)"
  by (auto simp: entry_synced_def split: sum.splits option.splits node.splits)

lemma entry_synced_cong:
  "node_at fs' (d @ [e_name e]) = node_at fs (d @ [e_name e]) \<Longrightarrow>
   entry_synced E tok fs' d e = entry_synced E tok fs d e"
  by (simp add: entry_synced_iff)

text \<open>After \<^verbatim>\<open>process_file\<close> has returned, the file is there with the remote digest.\<close>

lemma process_file_syncs:
  assumes n: "plain (f_name f)" and fa: "faithful E f"
    and d: "resolve (disk w) (getcwd E) folder = Inr d" "is_dir (disk w) d"
    and ok: "fst (process_file E f folder w) = Inr b"
  shows "\<exists>bs. node_at (disk (snd (process_file E f folder w))) (d @ [f_name f]) = Some (File bs) \<and>
              sha256_hexdigest E bs = f_sha f"
proof -
  have r: "resolve (disk w) (getcwd E) (os_path_join folder (f_name f)) = Inr (d @ [f_name f])"
    by (rule resolve_join_plain [OF n d])
  show ?thesis
  proof (cases b)
    case False
    with ok have u: "up_to_date E (disk w) (os_path_join folder (f_name f)) (f_sha f)"
      by (simp add: process_file_False_iff)
    then show ?thesis
      using r by (auto simp: process_file_up_to_date up_to_date_iff)
  next
    case True
    with ok have "fst (process_file E f folder w) = Inr True" by simp
    from process_file_True [OF this] r obtain t bs where
      "decode_source E (file_source f) = Inr t" "text_encode E t = Some bs"
      "node_at (disk (snd (process_file E f folder w))) (d @ [f_name f]) = Some (File bs)"
      by auto
    with fa show ?thesis by (auto simp: faithful_def)
  qed
qed

lemma process_file_elsewhere_plain:
  assumes "plain (f_name f)" and "resolve (disk w) (getcwd E) folder = Inr d" "is_dir (disk w) d"
    and "q \<noteq> d @ [f_name f]"
  shows "node_at (disk (snd (process_file E f folder w))) q = node_at (disk w) q"
  using resolve_join_plain [OF assms(1-3)] assms(4)
  by (intro process_file_elsewhere) simp

lemma fetch_loop_syncs:
  assumes "\<forall>e \<in> set es. entry_ok E tok e" and "distinct (map e_name es)"
    and "resolve (disk w) (getcwd E) folder = Inr d" and "is_dir (disk w) d"
    and "fst (fetch_loop E tok folder (map e_id es) c w) = Inr c'"
  shows "(\<forall>e \<in> set es. entry_synced E tok (disk (snd (fetch_loop E tok folder (map e_id es) c w))) d e) \<and>
         (\<forall>q. q \<notin> (\<lambda>e. d @ [e_name e]) ` set es \<longrightarrow>
              node_at (disk (snd (fetch_loop E tok folder (map e_id es) c w))) q = node_at (disk w) q)"
  using assms
proof (induction es arbitrary: c w)
  case Nil
  show ?case by (simp add: fetch_loop_simps)
next
  case (Cons e es)
  let ?w1 = "emit (Requested (GetFile (e_id e))) w"
  from Cons.prems(5) obtain f where f: "api_file E tok (e_id e) = Inr f"
    by (cases "api_file E tok (e_id e)") (auto simp: fetch_loop_simps)
  from Cons.prems(5) f obtain b where b: "fst (process_file E f folder ?w1) = Inr b"
    by (cases "fst (process_file E f folder ?w1)") (auto simp: fetch_loop_simps)
  let ?w2 = "snd (process_file E f folder ?w1)"
  have eq: "fetch_loop E tok folder (map e_id (e # es)) c w =
            fetch_loop E tok folder (map e_id es) (b \<or> c) ?w2"
    using f b by (simp add: fetch_loop_simps)
  from Cons.prems(1) f have nm: "f_name f = e_name e" and pl: "plain (f_name f)"
    and fa: "faithful E f"
    by (auto simp: entry_ok_def)
  have d1: "resolve (disk ?w1) (getcwd E) folder = Inr d" "is_dir (disk ?w1) d"
    using Cons.prems(3,4) by simp_all
  from process_file_syncs [OF pl fa d1 b] obtain bs where
    bs: "node_at (disk ?w2) (d @ [e_name e]) = Some (File bs)" "sha256_hexdigest E bs = f_sha f"
    by (auto simp: nm)
  have else2: "node_at (disk ?w2) q = node_at (disk w) q" if "q \<noteq> d @ [e_name e]" for q
    using process_file_elsewhere_plain [OF pl d1, of q] that by (simp add: nm)
  have sd: "same_dirs (disk w) (disk ?w2)"
    using process_file_same_dirs [of ?w1 E f folder] by simp
  have d2: "resolve (disk ?w2) (getcwd E) folder = Inr d" "is_dir (disk ?w2) d"
    using Cons.prems(3,4) resolve_same_dirs [OF sd] sd by (simp_all add: same_dirs_def)
  have 1: "\<forall>e \<in> set es. entry_ok E tok e" using Cons.prems(1) by simp
  have 2: "distinct (map e_name es)" using Cons.prems(2) by simp
  have 5: "fst (fetch_loop E tok folder (map e_id es) (b \<or> c) ?w2) = Inr c'"
    using Cons.prems(5) unfolding eq .
  note IH = Cons.IH [OF 1 2 d2 5]
  let ?w' = "snd (fetch_loop E tok folder (map e_id es) (b \<or> c) ?w2)"
  have notin: "d @ [e_name e] \<notin> (\<lambda>e. d @ [e_name e]) ` set es"
    using Cons.prems(2) by auto
  with IH have "node_at (disk ?w') (d @ [e_name e]) = node_at (disk ?w2) (d @ [e_name e])"
    by blast
  with bs f have "entry_synced E tok (disk ?w') d e"
    by (auto simp: entry_synced_iff)
  moreover have "node_at (disk ?w') q = node_at (disk w) q"
    if "q \<notin> (\<lambda>e. d @ [e_name e]) ` set (e # es)" for q
  proof -
    from that have "q \<notin> (\<lambda>e. d @ [e_name e]) ` set es" "q \<noteq> d @ [e_name e]" by auto
    with IH else2 show ?thesis by simp
  qed
  ultimately show ?case
    unfolding eq using IH by auto
qed

text \<open>With every file in place the fetch loop writes nothing.\<close>

lemma fetch_loop_in_sync:
  assumes "\<forall>e \<in> set es. entry_ok E tok e \<and> entry_synced E tok (disk w) d e"
    and "resolve (disk w) (getcwd E) folder = Inr d" and "is_dir (disk w) d"
  shows "fst (fetch_loop E tok folder (map e_id es) c w) = Inr c \<and>
         disk (snd (fetch_loop E tok folder (map e_id es) c w)) = disk w \<and>
         wrote_paths (events (snd (fetch_loop E tok folder (map e_id es) c w))) =
           wrote_paths (events w)"
  using assms
proof (induction es arbitrary: w)
  case Nil
  show ?case by (simp add: fetch_loop_simps)
next
  case (Cons e es)
  let ?w1 = "emit (Requested (GetFile (e_id e))) w"
  from Cons.prems(1) obtain f bs where f: "api_file E tok (e_id e) = Inr f"
    and bs: "node_at (disk w) (d @ [e_name e]) = Some (File bs)" "sha256_hexdigest E bs = f_sha f"
    by (auto simp: entry_synced_iff)
  from Cons.prems(1) f have nm: "f_name f = e_name e" and pl: "plain (f_name f)"
    by (auto simp: entry_ok_def)
  have r: "resolve (disk ?w1) (getcwd E) (os_path_join folder (f_name f)) = Inr (d @ [f_name f])"
    using resolve_join_plain [OF pl Cons.prems(2,3)] by simp
  have u: "up_to_date E (disk ?w1) (os_path_join folder (f_name f)) (f_sha f)"
    unfolding up_to_date_iff using r bs by (auto simp: nm)
  let ?w2 = "emit (Log DEBUG (ProcessingFile (f_id f) (f_name f) (f_sha f))) ?w1"
  have eq: "fetch_loop E tok folder (map e_id (e # es)) c w =
            fetch_loop E tok folder (map e_id es) c ?w2"
    using f by (simp add: fetch_loop_simps process_file_up_to_date [OF u])
  have "\<forall>e \<in> set es. entry_ok E tok e \<and> entry_synced E tok (disk ?w2) d e"
    using Cons.prems(1) by simp
  moreover have "resolve (disk ?w2) (getcwd E) folder = Inr d" "is_dir (disk ?w2) d"
    using Cons.prems(2,3) by simp_all
  ultimately show ?case
    unfolding eq using Cons.IH [of ?w2] by simp
qed

lemma remote_well_formed_entries:
  "remote_well_formed E tok files \<Longrightarrow>
   (\<forall>e \<in> set (filter e_deployed files). entry_ok E tok e) \<and>
   distinct (map e_name (filter e_deployed files))"
  by (auto simp: remote_well_formed_def files_to_backup_def list_all_iff)

lemma main_sync_reaches_fixpoint:
  assumes tok: "api_login E = Inr tok" and files: "api_files E tok = Inr files"
    and wf: "remote_well_formed E tok files"
    and d: "resolve (disk w) (getcwd E) folder = Inr d" "is_dir (disk w) d"
    and ok: "fst (main_sync E folder w) = Inr c"
  shows "(\<forall>e \<in> set (filter e_deployed files).
            entry_synced E tok (disk (snd (main_sync E folder w))) d e) \<and>
         set (listing (disk (snd (main_sync E folder w))) d) \<subseteq> set (files_to_backup files) \<and>
         same_dirs (disk w) (disk (snd (main_sync E folder w)))"
proof -
  let ?es = "filter e_deployed files"
  let ?w2 = "emit (Requested ListFiles) (emit (Requested Login) w)"
  let ?fl = "fetch_loop E tok folder (file_ids files) False ?w2"
  let ?ls = "os_walk_files (disk w) (getcwd E) folder"
  let ?w1 = "snd (main_sync E folder w)"
  let ?names = "files_to_backup files"
  from remote_well_formed_entries [OF wf]
  have es: "\<forall>e \<in> set ?es. entry_ok E tok e" "distinct (map e_name ?es)"
    by simp_all
  have ids: "file_ids files = map e_id ?es" by (simp add: file_ids_def)
  have names: "set ?names = e_name ` set ?es" by (simp add: files_to_backup_def)
  have ls: "?ls = listing (disk w) d" using d by (simp add: os_walk_files_def)
  from ok obtain c0 where c0: "fst ?fl = Inr c0"
    using main_sync_unfold [OF tok files, of folder w]
    by (cases "fst ?fl") auto
  have ms: "main_sync E folder w = cleanup_loop E folder ?names ?ls c0 (snd ?fl)"
    using main_sync_unfold [OF tok files, of folder w] c0 by simp
  have d2: "resolve (disk ?w2) (getcwd E) folder = Inr d" "is_dir (disk ?w2) d"
    using d by simp_all
  from fetch_loop_syncs [OF es(1) es(2) d2 c0 [unfolded ids]]
  have s3: "\<forall>e \<in> set ?es. entry_synced E tok (disk (snd ?fl)) d e"
    and else3: "\<And>q. q \<notin> (\<lambda>e. d @ [e_name e]) ` set ?es \<Longrightarrow>
                  node_at (disk (snd ?fl)) q = node_at (disk w) q"
    unfolding ids by simp_all
  have sd3: "same_dirs (disk w) (disk (snd ?fl))"
    using fetch_loop_same_dirs [of ?w2 E tok folder "file_ids files" False] by simp
  have d3: "resolve (disk (snd ?fl)) (getcwd E) folder = Inr d" "is_dir (disk (snd ?fl)) d"
    using d resolve_same_dirs [OF sd3] sd3 by (simp_all add: same_dirs_def)
  have pl: "\<forall>f \<in> set ?ls. plain f" by (simp add: os_walk_files_plain)
  have k: "fst (cleanup_loop E folder ?names ?ls c0 (snd ?fl)) = Inr c"
    using ok by (simp add: ms)
  have n1: "node_at (disk ?w1) q =
              (if q \<in> (\<lambda>f. d @ [f]) ` (set ?ls - set ?names) then None
               else node_at (disk (snd ?fl)) q)" for q
    unfolding ms by (rule cleanup_loop_disk [OF d3 pl k])
  have sd1: "same_dirs (disk w) (disk ?w1)"
    unfolding ms using sd3 cleanup_loop_same_dirs by (blast intro: same_dirs_trans)
  have synced: "entry_synced E tok (disk ?w1) d e" if e: "e \<in> set ?es" for e
  proof -
    from e have "e_name e \<in> set ?names" by (simp add: names)
    then have "d @ [e_name e] \<notin> (\<lambda>f. d @ [f]) ` (set ?ls - set ?names)" by auto
    then have "node_at (disk ?w1) (d @ [e_name e]) = node_at (disk (snd ?fl)) (d @ [e_name e])"
      by (simp add: n1)
    from entry_synced_cong [OF this] s3 e show ?thesis by blast
  qed
  have "n \<in> set ?names" if n: "n \<in> set (listing (disk ?w1) d)" for n
  proof (rule ccontr)
    assume nn: "n \<notin> set ?names"
    from n have p: "plain n" and isf: "is_file (disk ?w1) (d @ [n])"
      by (simp_all add: set_listing)
    have nls: "n \<notin> set ?ls"
    proof
      assume "n \<in> set ?ls"
      with nn have "d @ [n] \<in> (\<lambda>f. d @ [f]) ` (set ?ls - set ?names)" by blast
      then have "node_at (disk ?w1) (d @ [n]) = None" by (simp add: n1)
      with isf show False by (simp add: is_file_def)
    qed
    then have "d @ [n] \<notin> (\<lambda>f. d @ [f]) ` (set ?ls - set ?names)" by auto
    then have a: "node_at (disk ?w1) (d @ [n]) = node_at (disk (snd ?fl)) (d @ [n])"
      by (simp add: n1)
    from nn have "d @ [n] \<notin> (\<lambda>e. d @ [e_name e]) ` set ?es" by (auto simp: names)
    from else3 [OF this] a isf have "is_file (disk w) (d @ [n])"
      by (simp add: is_file_def)
    with p have "n \<in> set (listing (disk w) d)" by (simp add: set_listing)
    with nls ls show False by simp
  qed
  with synced sd1 show ?thesis by blast
qed

subsection \<open>The result of process_file, case by case\<close>

lemma up_to_date_read:
  "up_to_date E fs p sha \<longleftrightarrow>
     (\<exists>b. read_bytes fs (getcwd E) p = Inr b \<and> sha256_hexdigest E b = sha)"
  by (auto simp: up_to_date_iff read_bytes_iff)

lemma open_w_Inr:
  "open_w fs wd p = Inr (q, fs1) \<longleftrightarrow>
     resolve fs wd p = Inr q \<and> \<not> is_dir fs q \<and> fs1 = AList.update q (File []) fs"
  by (auto simp: open_w_def split: sum.splits)

lemma open_w_Inl:
  "open_w fs wd p = Inl e \<longleftrightarrow>
     resolve fs wd p = Inl e \<or>
     (\<exists>q. resolve fs wd p = Inr q \<and> is_dir fs q \<and> e = IsADirectoryError)"
  by (auto simp: open_w_def split: sum.splits)

lemma process_file_decode_error:
  assumes "\<not> up_to_date E (disk w) (os_path_join folder (f_name f)) (f_sha f)"
    and "decode_source E (file_source f) = Inl e"
  shows "process_file E f folder w =
           (Inl e, emit (Log DEBUG (ProcessingFile (f_id f) (f_name f) (f_sha f))) w)"
  using assms(2) by (simp add: process_file_not_up_to_date [OF assms(1)] decode_and_write_def)

lemma process_file_open_error:
  assumes "\<not> up_to_date E (disk w) (os_path_join folder (f_name f)) (f_sha f)"
    and "decode_source E (file_source f) = Inr t"
    and "open_w (disk w) (getcwd E) (os_path_join folder (f_name f)) = Inl e"
  shows "process_file E f folder w =
           (Inl (OSError e),
            emit (Log INFO (WritingFile (f_name f)))
              (emit (Log DEBUG (ProcessingFile (f_id f) (f_name f) (f_sha f))) w))"
  using assms(2,3)
  by (simp add: process_file_not_up_to_date [OF assms(1)] decode_and_write_def write_file_def)

lemma process_file_encode_error:
  assumes "\<not> up_to_date E (disk w) (os_path_join folder (f_name f)) (f_sha f)"
    and "decode_source E (file_source f) = Inr t"
    and "resolve (disk w) (getcwd E) (os_path_join folder (f_name f)) = Inr q"
    and "\<not> is_dir (disk w) q" and "text_encode E t = None"
  shows "process_file E f folder w =
           (Inl UnicodeEncodeError,
            w\<lparr>disk := AList.update q (File []) (disk w),
              events := events w @
                [Log DEBUG (ProcessingFile (f_id f) (f_name f) (f_sha f)),
                 Log INFO (WritingFile (f_name f)),
                 Wrote (os_path_join folder (f_name f))]\<rparr>)"
  using assms(2-5)
  by (simp add: process_file_not_up_to_date [OF assms(1)] decode_and_write_def write_file_def
      open_w_def emit_def)

lemma process_file_written:
  assumes "\<not> up_to_date E (disk w) (os_path_join folder (f_name f)) (f_sha f)"
    and "decode_source E (file_source f) = Inr t"
    and "resolve (disk w) (getcwd E) (os_path_join folder (f_name f)) = Inr q"
    and "\<not> is_dir (disk w) q" and "text_encode E t = Some bs"
  shows "process_file E f folder w =
           (Inr True,
            w\<lparr>disk := AList.update q (File bs) (AList.update q (File []) (disk w)),
              events := events w @
                [Log DEBUG (ProcessingFile (f_id f) (f_name f) (f_sha f)),
                 Log INFO (WritingFile (f_name f)),
                 Wrote (os_path_join folder (f_name f))]\<rparr>)"
  using assms(2-5)
  by (simp add: process_file_not_up_to_date [OF assms(1)] decode_and_write_def write_file_def
      open_w_def emit_def)

lemma process_file_written_read:
  assumes "\<not> up_to_date E (disk w) (os_path_join folder (f_name f)) (f_sha f)"
    and "decode_source E (file_source f) = Inr t"
    and "resolve (disk w) (getcwd E) (os_path_join folder (f_name f)) = Inr q"
    and "\<not> is_dir (disk w) q" and "text_encode E t = Some bs"
  shows "read_bytes (disk (snd (process_file E f folder w))) (getcwd E)
           (os_path_join folder (f_name f)) = Inr bs"
proof -
  have "fst (process_file E f folder w) = Inr True"
    by (simp add: process_file_written [OF assms])
  from process_file_True_read [OF this] assms(2,5) show ?thesis by simp
qed

lemma process_file_raises:
  assumes "fst (process_file E f folder w) = Inl e"
  shows "decode_source E (file_source f) = Inl e \<or>
         (\<exists>x. e = OSError x \<and> open_w (disk w) (getcwd E) (os_path_join folder (f_name f)) = Inl x) \<or>
         (e = UnicodeEncodeError \<and>
          (\<exists>t. decode_source E (file_source f) = Inr t \<and> text_encode E t = None))"
proof (cases "up_to_date E (disk w) (os_path_join folder (f_name f)) (f_sha f)")
  case True
  with assms show ?thesis by (simp add: process_file_up_to_date)
next
  case False
  let ?L = "emit (Log DEBUG (ProcessingFile (f_id f) (f_name f) (f_sha f))) w"
  from assms have a: "fst (decode_and_write E f folder ?L) = Inl e"
    by (simp add: process_file_not_up_to_date [OF False])
  show ?thesis
    using a
    by (cases E f folder ?L rule: decode_and_write_cases) (auto simp: open_w_Inl)
qed

subsection \<open>One step of the fetch loop\<close>

lemma fetch_loop_step:
  assumes "fst (fetch_loop E tok folder pre c0 w) = Inr c1" and "api_file E tok i = Inr f"
  shows "fetch_loop E tok folder (pre @ i # post) c0 w =
           (case fst (process_file E f folder
                        (emit (Requested (GetFile i)) (snd (fetch_loop E tok folder pre c0 w)))) of
              Inl e \<Rightarrow>
                (Inl e, snd (process_file E f folder
                        (emit (Requested (GetFile i)) (snd (fetch_loop E tok folder pre c0 w)))))
            | Inr b \<Rightarrow>
                fetch_loop E tok folder post (b \<or> c1)
                  (snd (process_file E f folder
                        (emit (Requested (GetFile i)) (snd (fetch_loop E tok folder pre c0 w))))))"
  using assms by (simp add: fetch_loop_append fetch_loop_simps)

subsection \<open>The result of the commit step, case by case\<close>

lemma main_commit_nothing:
  "\<not> c \<Longrightarrow> \<not> git_is_dirty E (repo w) (disk w) \<Longrightarrow>
   main_commit E push c w = (Inr (), emit (Log INFO NoChanges) w)"
  by (simp add: main_commit_def)

lemma main_commit_add_fails:
  "c \<or> git_is_dirty E (repo w) (disk w) \<Longrightarrow> git_add_all E (repo w) (disk w) = None \<Longrightarrow>
   main_commit E push c w = (Inl GitCommandError, emit (Log INFO ChangesDetected) w)"
  by (auto simp: main_commit_def)

lemma main_commit_commit_fails:
  "c \<or> git_is_dirty E (repo w) (disk w) \<Longrightarrow> git_add_all E (repo w) (disk w) = Some g1 \<Longrightarrow>
   git_index_commit E g1 (commit_message E) = None \<Longrightarrow>
   main_commit E push c w =
     (Inl GitCommandError,
      w\<lparr>repo := g1, events := events w @ [Log INFO ChangesDetected, StagedAll]\<rparr>)"
  by (auto simp: main_commit_def emit_def Let_def)

lemma main_commit_committed:
  "c \<or> git_is_dirty E (repo w) (disk w) \<Longrightarrow> git_add_all E (repo w) (disk w) = Some g1 \<Longrightarrow>
   git_index_commit E g1 (commit_message E) = Some g2 \<Longrightarrow> \<not> push \<Longrightarrow>
   main_commit E push c w =
     (Inr (),
      w\<lparr>repo := g2,
        events := events w @ [Log INFO ChangesDetected, StagedAll, Committed (commit_message E),
                              Log INFO ChangesCommitted]\<rparr>)"
  by (auto simp: main_commit_def emit_def Let_def)

lemma main_commit_pushed:
  "c \<or> git_is_dirty E (repo w) (disk w) \<Longrightarrow> git_add_all E (repo w) (disk w) = Some g1 \<Longrightarrow>
   git_index_commit E g1 (commit_message E) = Some g2 \<Longrightarrow> push \<Longrightarrow>
   git_push E g2 = Some g3 \<Longrightarrow>
   main_commit E push c w =
     (Inr (),
      w\<lparr>repo := g3,
        events := events w @ [Log INFO ChangesDetected, StagedAll, Committed (commit_message E),
                              Log INFO ChangesCommitted, Log INFO PushingChanges, Pushed,
                              Log INFO ChangesPushed]\<rparr>)"
  by (auto simp: main_commit_def emit_def Let_def)

lemma main_commit_push_fails:
  "c \<or> git_is_dirty E (repo w) (disk w) \<Longrightarrow> git_add_all E (repo w) (disk w) = Some g1 \<Longrightarrow>
   git_index_commit E g1 (commit_message E) = Some g2 \<Longrightarrow> push \<Longrightarrow>
   git_push E g2 = None \<Longrightarrow>
   main_commit E push c w =
     (Inl GitCommandError,
      w\<lparr>repo := g2,
        events := events w @ [Log INFO ChangesDetected, StagedAll, Committed (commit_message E),
                              Log INFO ChangesCommitted, Log INFO PushingChanges]\<rparr>)"
  by (auto simp: main_commit_def emit_def Let_def)

lemma main_try_aborted:
  "fst (main_sync E folder w) = Inl e \<Longrightarrow>
   main_try E folder push w = (Inl e, snd (main_sync E folder w))"
  by (simp add: main_try_unfold)

lemma main_try_completed:
  "fst (main_sync E folder w) = Inr c \<Longrightarrow>
   main_try E folder push w = main_commit E push c (snd (main_sync E folder w))"
  by (simp add: main_try_unfold)

subsection \<open>A digest of fixed length has collisions\<close>

lemma fixed_length_digest_collides:
  fixes h :: "bytes \<Rightarrow> string"
  assumes "\<And>b. length (h b) = n"
  shows "\<exists>p1 p2. p1 \<noteq> p2 \<and> h p1 = h p2"
proof -
  have "range h \<subseteq> {xs. set xs \<subseteq> UNIV \<and> length xs = n}"
    using assms by auto
  moreover have "finite {xs :: string. set xs \<subseteq> UNIV \<and> length xs = n}"
    by (rule finite_lists_length_eq) simp
  ultimately have "finite (range h)" by (rule finite_subset)
  moreover have "infinite (UNIV :: bytes set)" by (rule infinite_UNIV_listI)
  ultimately have "\<not> inj h" using finite_imageD by blast
  then show ?thesis by (auto simp: inj_on_def)
qed

subsection \<open>The repository before the commit step\<close>

lemma cleanup_loop_repo:
  "removed_paths (events (snd (cleanup_loop E folder backup files c w))) = removed_paths (events w) \<Longrightarrow>
   repo (snd (cleanup_loop E folder backup files c w)) = repo w"
proof (induction files arbitrary: c w)
  case Nil
  show ?case by simp
next
  case (Cons f files)
  show ?case
  proof (cases "f \<in> set backup")
    case True
    with Cons show ?thesis by simp
  next
    case False
    show ?thesis
    proof (cases "os_remove (disk w) (getcwd E) (os_path_join folder f)")
      case (Inl e)
      with False show ?thesis by simp
    next
      case (Inr fs1)
      let ?w1 = "emit (Removed (os_path_join folder f)) (w\<lparr>disk := fs1\<rparr>)"
      show ?thesis
      proof (cases "git_index_remove E (repo w) f")
        case None
        with False Inr show ?thesis by (simp add: Let_def emit_def)
      next
        case (Some g)
        let ?w2 = "emit (IndexRemoved f) (?w1\<lparr>repo := g\<rparr>)"
        have eq: "cleanup_loop E folder backup (f # files) c w =
                  cleanup_loop E folder backup files True ?w2"
          using False Inr Some by (simp add: Let_def emit_def)
        from cleanup_loop_removed_any [of E folder backup files True ?w2]
        obtain xs where
          "removed_paths (events (snd (cleanup_loop E folder backup files True ?w2))) =
             removed_paths (events ?w2) @ map (os_path_join folder) xs"
          by blast
        moreover have "removed_paths (events ?w2) = removed_paths (events w) @ [os_path_join folder f]"
          by (simp add: emit_def removed_paths_append)
        ultimately have
          "length (removed_paths (events (snd (cleanup_loop E folder backup (f # files) c w)))) >
           length (removed_paths (events w))"
          unfolding eq by simp
        with Cons.prems show ?thesis by simp
      qed
    qed
  qed
qed

lemma main_sync_repo:
  assumes "removed_paths (events (snd (main_sync E folder w))) = removed_paths (events w)"
  shows "repo (snd (main_sync E folder w)) = repo w"
proof (cases E folder w rule: main_sync_cases)
  case (login_fails r)
  then show ?thesis by (simp add: emit_def)
next
  case (list_fails tok r)
  then show ?thesis by (simp add: emit_def)
next
  case (fetch_fails tok files e)
  then show ?thesis by (simp add: fetch_loop_frame emit_def)
next
  case (cleaned tok files c)
  let ?w3 = "snd (fetch_loop E tok folder (file_ids files) False
                    (emit (Requested ListFiles) (emit (Requested Login) w)))"
  have r3: "removed_paths (events ?w3) = removed_paths (events w)"
    and g3: "repo ?w3 = repo w"
    by (simp_all add: fetch_loop_frame emit_def removed_paths_append)
  from assms cleaned(4) r3
  have "removed_paths (events (snd (cleanup_loop E folder (files_to_backup files)
            (os_walk_files (disk w) (getcwd E) folder) c ?w3))) = removed_paths (events ?w3)"
    by simp
  from cleanup_loop_repo [OF this] cleaned(4) g3 show ?thesis by simp
qed

section \<open>The claims\<close>

subsection \<open>C1: a file is written if and only if it is absent or its digest differs\<close>




subsection \<open>C2: the cleanup deletes exactly the orphans\<close>



subsection \<open>C3: one commit, if and only if the run completes and something changed\<close>




subsection \<open>C4: idempotence\<close>

text \<open>
  Claim C4 says that a second run over the files the first run has left, with the remote
  state unchanged, writes nothing and deletes nothing. That fails for remote states that
  cannot be mirrored, which the script accepts. In each of four runs over the mirror with
  \<^verbatim>\<open>a.vcl\<close> and \<^verbatim>\<open>c.vcl\<close> the first run completes with status 0, and the second run sets
  \<^verbatim>\<open>commit_required\<close> again. When the deployed name is \<^verbatim>\<open>./a.vcl\<close>, the first run deletes
  \<^verbatim>\<open>a.vcl\<close> and the second writes it. When two deployed artifacts are named \<^verbatim>\<open>a.vcl\<close>,
  every run writes the second over the first. When the remote digest of \<^verbatim>\<open>a.vcl\<close> is not
  the digest of its payload, every run writes the file. When the artifact listed as
  \<^verbatim>\<open>a.vcl\<close> is retrieved under the name \<^verbatim>\<open>b.vcl\<close>, the first run writes \<^verbatim>\<open>b.vcl\<close> and the
  second deletes it.
\<close>

theorem second_run_changes_files_again:
  "fst (main env_dot_name ''/srv/mirror'' False world0) = 0 \<and>
   wrote_paths (events (snd (main env_dot_name ''/srv/mirror'' False world0))) = [] \<and>
   removed_paths (events (snd (main env_dot_name ''/srv/mirror'' False world0))) = [''/srv/mirror/a.vcl''] \<and>
   fst (main_sync env_dot_name ''/srv/mirror'' (snd (main env_dot_name ''/srv/mirror'' False world0))) = Inr True \<and>
   wrote_paths (events (snd (main_sync env_dot_name ''/srv/mirror''
       (snd (main env_dot_name ''/srv/mirror'' False world0))))) = [''/srv/mirror/./a.vcl''] \<and>
   removed_paths (events (snd (main_sync env_dot_name ''/srv/mirror''
       (snd (main env_dot_name ''/srv/mirror'' False world0))))) = [''/srv/mirror/a.vcl''] \<and>
   fst (main env_same_name ''/srv/mirror'' False world0) = 0 \<and>
   wrote_paths (events (snd (main env_same_name ''/srv/mirror'' False world0))) = [''/srv/mirror/a.vcl''] \<and>
   removed_paths (events (snd (main env_same_name ''/srv/mirror'' False world0))) = [] \<and>
   fst (main_sync env_same_name ''/srv/mirror'' (snd (main env_same_name ''/srv/mirror'' False world0))) = Inr True \<and>
   wrote_paths (events (snd (main_sync env_same_name ''/srv/mirror''
       (snd (main env_same_name ''/srv/mirror'' False world0))))) = [''/srv/mirror/a.vcl'', ''/srv/mirror/a.vcl'', ''/srv/mirror/a.vcl''] \<and>
   removed_paths (events (snd (main_sync env_same_name ''/srv/mirror''
       (snd (main env_same_name ''/srv/mirror'' False world0))))) = [] \<and>
   fst (main env_other_digest ''/srv/mirror'' False world0) = 0 \<and>
   wrote_paths (events (snd (main env_other_digest ''/srv/mirror'' False world0))) = [''/srv/mirror/a.vcl''] \<and>
   removed_paths (events (snd (main env_other_digest ''/srv/mirror'' False world0))) = [] \<and>
   fst (main_sync env_other_digest ''/srv/mirror'' (snd (main env_other_digest ''/srv/mirror'' False world0))) = Inr True \<and>
   wrote_paths (events (snd (main_sync env_other_digest ''/srv/mirror''
       (snd (main env_other_digest ''/srv/mirror'' False world0))))) = [''/srv/mirror/a.vcl'', ''/srv/mirror/a.vcl''] \<and>
   removed_paths (events (snd (main_sync env_other_digest ''/srv/mirror''
       (snd (main env_other_digest ''/srv/mirror'' False world0))))) = [] \<and>
   fst (main env_other_name ''/srv/mirror'' False world0) = 0 \<and>
   wrote_paths (events (snd (main env_other_name ''/srv/mirror'' False world0))) = [''/srv/mirror/b.vcl''] \<and>
   removed_paths (events (snd (main env_other_name ''/srv/mirror'' False world0))) = [] \<and>
   fst (main_sync env_other_name ''/srv/mirror'' (snd (main env_other_name ''/srv/mirror'' False world0))) = Inr True \<and>
   wrote_paths (events (snd (main_sync env_other_name ''/srv/mirror''
       (snd (main env_other_name ''/srv/mirror'' False world0))))) = [''/srv/mirror/b.vcl''] \<and>
   removed_paths (events (snd (main_sync env_other_name ''/srv/mirror''
       (snd (main env_other_name ''/srv/mirror'' False world0))))) = [''/srv/mirror/b.vcl'']"
  by code_simp

text \<open>
  Claim C4, amended. Let the remote state be one that can be mirrored: the names of the
  deployed entries are distinct plain file names (not empty, not \<^verbatim>\<open>.\<close> or \<^verbatim>\<open>..\<close>, without
  a slash), and the content retrieved for each carries the name of its entry and the
  SHA-256 digest of the bytes the script stores for it. If a run over an existing mirror
  directory completes its writes and deletions, then a second run over the resulting
  files, with the remote state unchanged, writes nothing, deletes nothing, leaves the
  files and the repository as they are and leaves \<^verbatim>\<open>commit_required\<close> false: it creates a
  commit only if the working tree is dirty for another reason, and logs that there are
  no changes otherwise.
\<close>

theorem reconciliation_is_idempotent_when_mirrorable:
  "api_login E = Inr tok \<longrightarrow> api_files E tok = Inr files \<longrightarrow>
   distinct (files_to_backup files) \<longrightarrow>
   (\<forall>e \<in> set files. e_deployed e \<longrightarrow>
      plain (e_name e) \<and>
      (\<forall>f. api_file E tok (e_id e) = Inr f \<longrightarrow>
         f_name f = e_name e \<and>
         (\<forall>t bs. decode_source E (file_source f) = Inr t \<longrightarrow> text_encode E t = Some bs \<longrightarrow>
            sha256_hexdigest E bs = f_sha f))) \<longrightarrow>
   resolve (disk w) (getcwd E) folder = Inr d \<longrightarrow> is_dir (disk w) d \<longrightarrow>
   fst (main_sync E folder w) = Inr c \<longrightarrow>
   disk w2 = disk (snd (main_sync E folder w)) \<longrightarrow>
     fst (main_sync E folder w2) = Inr False \<and>
     disk (snd (main_sync E folder w2)) = disk w2 \<and>
     wrote_paths (events (snd (main_sync E folder w2))) = wrote_paths (events w2) \<and>
     removed_paths (events (snd (main_sync E folder w2))) = removed_paths (events w2) \<and>
     repo (snd (main_sync E folder w2)) = repo w2 \<and>
     (\<not> git_is_dirty E (repo w2) (disk w2) \<longrightarrow>
        main_try E folder push w2 =
          (Inr (), emit (Log INFO NoChanges) (snd (main_sync E folder w2))) \<and>
        commits (events (snd (main_try E folder push w2))) = commits (events w2))"
proof (intro impI)
  let ?es = "filter e_deployed files"
  let ?names = "files_to_backup files"
  let ?w1 = "snd (main_sync E folder w)"
  let ?v = "emit (Requested ListFiles) (emit (Requested Login) w2)"
  let ?fl = "fetch_loop E tok folder (file_ids files) False ?v"
  assume tok: "api_login E = Inr tok" and files: "api_files E tok = Inr files"
    and dist: "distinct (files_to_backup files)"
    and each: "\<forall>e \<in> set files. e_deployed e \<longrightarrow>
      plain (e_name e) \<and>
      (\<forall>f. api_file E tok (e_id e) = Inr f \<longrightarrow>
         f_name f = e_name e \<and>
         (\<forall>t bs. decode_source E (file_source f) = Inr t \<longrightarrow> text_encode E t = Some bs \<longrightarrow>
            sha256_hexdigest E bs = f_sha f))"
    and d: "resolve (disk w) (getcwd E) folder = Inr d" "is_dir (disk w) d"
    and ok: "fst (main_sync E folder w) = Inr c"
    and w2: "disk w2 = disk (snd (main_sync E folder w))"
  have "entry_ok E tok e" if "e \<in> set files" "e_deployed e" for e
    using each that
    by (auto simp: entry_ok_def faithful_def split: sum.splits option.splits)
  with dist have wf: "remote_well_formed E tok files"
    by (auto simp: remote_well_formed_def list_all_iff)
  from main_sync_reaches_fixpoint [OF tok files wf d ok]
  have synced: "\<forall>e \<in> set ?es. entry_synced E tok (disk ?w1) d e"
    and ls: "set (listing (disk ?w1) d) \<subseteq> set ?names"
    and sd: "same_dirs (disk w) (disk ?w1)"
    by simp_all
  from remote_well_formed_entries [OF wf]
  have es: "\<forall>e \<in> set ?es. entry_ok E tok e" by simp
  have ids: "file_ids files = map e_id ?es" by (simp add: file_ids_def)
  have dv: "resolve (disk ?v) (getcwd E) folder = Inr d" "is_dir (disk ?v) d"
    using d resolve_same_dirs [OF sd] sd by (simp_all add: w2 same_dirs_def)
  have "\<forall>e \<in> set ?es. entry_ok E tok e \<and> entry_synced E tok (disk ?v) d e"
    using es synced by (simp add: w2)
  from fetch_loop_in_sync [OF this dv, of False]
  have fl: "fst ?fl = Inr False" "disk (snd ?fl) = disk w2"
    "wrote_paths (events (snd ?fl)) = wrote_paths (events w2)"
    unfolding ids by simp_all
  have walk: "os_walk_files (disk w2) (getcwd E) folder = listing (disk ?w1) d"
    using dv by (simp add: os_walk_files_def w2)
  have ms: "main_sync E folder w2 = (Inr False, snd ?fl)"
    using main_sync_unfold [OF tok files, of folder w2] fl(1) ls
    by (simp add: walk cleanup_loop_nothing)
  have fr: "removed_paths (events (snd ?fl)) = removed_paths (events w2)"
    "repo (snd ?fl) = repo w2" "commits (events (snd ?fl)) = commits (events w2)"
    using fetch_loop_frame [of E tok folder "file_ids files" False ?v] by simp_all
  have co: "commits (events (snd (main_try E folder push w2))) = commits (events w2)"
    if "\<not> git_is_dirty E (repo w2) (disk w2)"
    using that by (simp add: main_try_unfold ms main_commit_commits fl fr)
  have no: "main_try E folder push w2 =
          (Inr (), emit (Log INFO NoChanges) (snd (main_sync E folder w2)))"
    if "\<not> git_is_dirty E (repo w2) (disk w2)"
  proof -
    have f: "fst (main_sync E folder w2) = Inr False" by (simp add: ms)
    have "\<not> git_is_dirty E (repo (snd (main_sync E folder w2))) (disk (snd (main_sync E folder w2)))"
      using that by (simp add: ms fl fr)
    from main_commit_nothing [OF _ this, of False push] main_try_completed [OF f, of push]
    show ?thesis by simp
  qed
  from fl fr co no show "fst (main_sync E folder w2) = Inr False \<and>
     disk (snd (main_sync E folder w2)) = disk w2 \<and>
     wrote_paths (events (snd (main_sync E folder w2))) = wrote_paths (events w2) \<and>
     removed_paths (events (snd (main_sync E folder w2))) = removed_paths (events w2) \<and>
     repo (snd (main_sync E folder w2)) = repo w2 \<and>
     (\<not> git_is_dirty E (repo w2) (disk w2) \<longrightarrow>
        main_try E folder push w2 =
          (Inr (), emit (Log INFO NoChanges) (snd (main_sync E folder w2))) \<and>
        commits (events (snd (main_try E folder push w2))) = commits (events w2))"
    by (simp add: ms)
qed

theorem reconciliation_is_idempotent_when_mirrorable_witness:
  "api_login env_ab = Inr ''token'' \<and>
   api_files env_ab ''token'' =
     Inr [entry 1 ''a.vcl'' True, entry 2 ''b.vcl'' True, entry 3 ''x.vcl'' False] \<and>
   files_to_backup [entry 1 ''a.vcl'' True, entry 2 ''b.vcl'' True, entry 3 ''x.vcl'' False] =
     [''a.vcl'', ''b.vcl''] \<and>
   plain ''a.vcl'' \<and> plain ''b.vcl'' \<and>
   api_file env_ab ''token'' 1 = Inr (detail 1 ''a.vcl'' (sha256_table ''a'') ''YQ=='' []) \<and>
   api_file env_ab ''token'' 2 = Inr (detail 2 ''b.vcl'' (sha256_table ''b'') ''Yg=='' []) \<and>
   resolve (disk world0) (getcwd env_ab) ''/srv/mirror'' = Inr [''srv'', ''mirror''] \<and>
   is_dir (disk world0) [''srv'', ''mirror''] \<and>
   fst (main_sync env_ab ''/srv/mirror'' world0) = Inr True \<and>
   disk (snd (main_try env_ab ''/srv/mirror'' False world0)) =
     disk (snd (main_sync env_ab ''/srv/mirror'' world0)) \<and>
   fst (main_sync env_ab ''/srv/mirror'' (snd (main_try env_ab ''/srv/mirror'' False world0)))
     = Inr False \<and>
   disk (snd (main_sync env_ab ''/srv/mirror'' (snd (main_try env_ab ''/srv/mirror'' False world0))))
     = disk (snd (main_try env_ab ''/srv/mirror'' False world0)) \<and>
   repo (snd (main_sync env_ab ''/srv/mirror'' (snd (main_try env_ab ''/srv/mirror'' False world0))))
     = repo (snd (main_try env_ab ''/srv/mirror'' False world0)) \<and>
   wrote_paths (events (snd (main_sync env_ab ''/srv/mirror''
       (snd (main_try env_ab ''/srv/mirror'' False world0))))) = [''/srv/mirror/b.vcl''] \<and>
   removed_paths (events (snd (main_sync env_ab ''/srv/mirror''
       (snd (main_try env_ab ''/srv/mirror'' False world0))))) = [''/srv/mirror/c.vcl''] \<and>
   main_try env_ab ''/srv/mirror'' False (snd (main_try env_ab ''/srv/mirror'' False world0)) =
     (Inr (), emit (Log INFO NoChanges)
                (snd (main_sync env_ab ''/srv/mirror''
                        (snd (main_try env_ab ''/srv/mirror'' False world0))))) \<and>
   commits (events (snd (main_try env_ab ''/srv/mirror'' False
       (snd (main_try env_ab ''/srv/mirror'' False world0))))) = 1"
proof -
  let ?files = "[entry 1 ''a.vcl'' True, entry 2 ''b.vcl'' True, entry 3 ''x.vcl'' False]"
  let ?w2 = "snd (main_try env_ab ''/srv/mirror'' False world0)"
  have 1: "api_login env_ab = Inr ''token''" "api_files env_ab ''token'' = Inr ?files"
    by (simp_all add: example_defs)
  have n: "files_to_backup ?files = [''a.vcl'', ''b.vcl'']"
    "plain ''a.vcl''" "plain ''b.vcl''"
    "api_file env_ab ''token'' 1 = Inr (detail 1 ''a.vcl'' (sha256_table ''a'') ''YQ=='' [])"
    "api_file env_ab ''token'' 2 = Inr (detail 2 ''b.vcl'' (sha256_table ''b'') ''Yg=='' [])"
    by code_simp+
  have wf: "remote_well_formed env_ab ''token'' ?files"
    by code_simp
  have dist: "distinct (files_to_backup ?files)"
    using wf by (simp add: remote_well_formed_def)
  have each: "\<forall>e \<in> set ?files. e_deployed e \<longrightarrow>
      plain (e_name e) \<and>
      (\<forall>f. api_file env_ab ''token'' (e_id e) = Inr f \<longrightarrow>
         f_name f = e_name e \<and>
         (\<forall>t bs. decode_source env_ab (file_source f) = Inr t \<longrightarrow>
            text_encode env_ab t = Some bs \<longrightarrow> sha256_hexdigest env_ab bs = f_sha f))"
  proof (intro ballI impI)
    fix e assume "e \<in> set ?files" "e_deployed e"
    with wf have "entry_ok env_ab ''token'' e"
      unfolding remote_well_formed_def list_all_iff by blast
    then show "plain (e_name e) \<and>
      (\<forall>f. api_file env_ab ''token'' (e_id e) = Inr f \<longrightarrow>
         f_name f = e_name e \<and>
         (\<forall>t bs. decode_source env_ab (file_source f) = Inr t \<longrightarrow>
            text_encode env_ab t = Some bs \<longrightarrow> sha256_hexdigest env_ab bs = f_sha f))"
      by (auto simp: entry_ok_def faithful_def)
  qed
  have 2: "resolve (disk world0) (getcwd env_ab) ''/srv/mirror'' = Inr [''srv'', ''mirror'']"
    "is_dir (disk world0) [''srv'', ''mirror'']"
    "fst (main_sync env_ab ''/srv/mirror'' world0) = Inr True"
    "disk ?w2 = disk (snd (main_sync env_ab ''/srv/mirror'' world0))"
    by code_simp+
  have 3: "\<not> git_is_dirty env_ab (repo ?w2) (disk ?w2)"
    "wrote_paths (events ?w2) = [''/srv/mirror/b.vcl'']"
    "removed_paths (events ?w2) = [''/srv/mirror/c.vcl'']"
    "commits (events ?w2) = 1"
    by code_simp+
  from reconciliation_is_idempotent_when_mirrorable
         [where E = env_ab and tok = "''token''" and files = ?files and w = world0
            and folder = "''/srv/mirror''" and d = "[''srv'', ''mirror'']" and c = True
            and ?w2.0 = ?w2 and push = False]
       1 dist each 2 3(1)
  have c: "fst (main_sync env_ab ''/srv/mirror'' ?w2) = Inr False"
    "disk (snd (main_sync env_ab ''/srv/mirror'' ?w2)) = disk ?w2"
    "repo (snd (main_sync env_ab ''/srv/mirror'' ?w2)) = repo ?w2"
    "wrote_paths (events (snd (main_sync env_ab ''/srv/mirror'' ?w2))) = wrote_paths (events ?w2)"
    "removed_paths (events (snd (main_sync env_ab ''/srv/mirror'' ?w2))) = removed_paths (events ?w2)"
    "main_try env_ab ''/srv/mirror'' False ?w2 =
       (Inr (), emit (Log INFO NoChanges) (snd (main_sync env_ab ''/srv/mirror'' ?w2)))"
    "commits (events (snd (main_try env_ab ''/srv/mirror'' False ?w2))) = commits (events ?w2)"
    by blast+
  show ?thesis
    using 1 n 2 c(1,2,3) c(4) [unfolded 3(2)] c(5) [unfolded 3(3)] c(6) c(7) [unfolded 3(4)]
    by (intro conjI)
qed

subsection \<open>C5: artifact names with path-traversal segments\<close>




subsection \<open>C6: a failed retrieval\<close>

text \<open>
  Claim C6 says that a failed retrieval leaves the local state as it was before the run.
  It does not: each file is processed as soon as it is retrieved (lines 127-131), so the
  files of the artifacts before the failing one have been written already. Here
  \<^verbatim>\<open>b.vcl\<close> is new and the retrieval of the second artifact fails with an HTTP error: the
  run ends with status 0 and without a commit, and \<^verbatim>\<open>b.vcl\<close> is on disk.
\<close>

theorem fetch_failure_keeps_earlier_writes:
  "file_ids [entry 2 ''b.vcl'' True, entry 9 ''z.vcl'' True] = [2, 9] \<and>
   api_files env_fetch_fails ''token'' = Inr [entry 2 ''b.vcl'' True, entry 9 ''z.vcl'' True] \<and>
   api_file env_fetch_fails ''token'' 9 = Inl HTTPError \<and>
   fst (main env_fetch_fails ''/srv/mirror'' False world0) = 0 \<and>
   commits (events (snd (main env_fetch_fails ''/srv/mirror'' False world0))) = 0 \<and>
   wrote_paths (events (snd (main env_fetch_fails ''/srv/mirror'' False world0))) =
     [''/srv/mirror/b.vcl''] \<and>
   read_bytes (disk world0) [''srv''] ''/srv/mirror/b.vcl'' = Inl FileNotFoundError \<and>
   read_bytes (disk (snd (main env_fetch_fails ''/srv/mirror'' False world0))) [''srv'']
     ''/srv/mirror/b.vcl'' = Inr ''b''"
  by code_simp

text \<open>
  Claim C6, amended. If the retrieval of a deployed artifact fails, the run aborts: no
  commit is created, no file is deleted and the repository is not touched. The files of
  the artifacts before the failing one have been processed and stay as written: the
  state left is the one after the last of them, with the failing request added.
\<close>

theorem fetch_failure_aborts_without_commit:
  "(api_login E = Inr tok \<longrightarrow> api_files E tok = Inr files \<longrightarrow>
    i \<in> set (file_ids files) \<longrightarrow> api_file E tok i = Inl r \<longrightarrow>
      (\<exists>e. fst (main_try E folder push w) = Inl e) \<and>
      commits (events (snd (main_try E folder push w))) = commits (events w) \<and>
      removed_paths (events (snd (main_try E folder push w))) = removed_paths (events w) \<and>
      repo (snd (main_try E folder push w)) = repo w) \<and>
   (api_login E = Inr tok \<longrightarrow> api_files E tok = Inr files \<longrightarrow>
    file_ids files = pre @ i # post \<longrightarrow>
    fst (fetch_loop E tok folder pre False
           (emit (Requested ListFiles) (emit (Requested Login) w))) = Inr c \<longrightarrow>
    api_file E tok i = Inl r \<longrightarrow>
      main_try E folder push w =
        (Inl (Request r),
         emit (Requested (GetFile i))
           (snd (fetch_loop E tok folder pre False
                   (emit (Requested ListFiles) (emit (Requested Login) w))))))"
proof (intro conjI impI)
  assume tok: "api_login E = Inr tok" and files: "api_files E tok = Inr files"
    and i: "i \<in> set (file_ids files)" and r: "api_file E tok i = Inl r"
  from fetch_loop_fails [OF i r] obtain e where
    e: "fst (fetch_loop E tok folder (file_ids files) False
               (emit (Requested ListFiles) (emit (Requested Login) w))) = Inl e"
    by blast
  from main_try_fetch_fails [OF tok files e]
  show "\<exists>e. fst (main_try E folder push w) = Inl e" by simp
  from main_try_frame_on_fetch_failure [OF tok files e]
  show "commits (events (snd (main_try E folder push w))) = commits (events w)"
    "removed_paths (events (snd (main_try E folder push w))) = removed_paths (events w)"
    "repo (snd (main_try E folder push w)) = repo w"
    by simp_all
next
  assume tok: "api_login E = Inr tok" and files: "api_files E tok = Inr files"
    and ids: "file_ids files = pre @ i # post"
    and pre: "fst (fetch_loop E tok folder pre False
           (emit (Requested ListFiles) (emit (Requested Login) w))) = Inr c"
    and r: "api_file E tok i = Inl r"
  note s = fetch_loop_stops_at [OF pre r, of post]
  then have "fst (fetch_loop E tok folder (file_ids files) False
           (emit (Requested ListFiles) (emit (Requested Login) w))) = Inl (Request r)"
    by (simp add: ids)
  from main_try_fetch_fails [OF tok files this] s
  show "main_try E folder push w =
        (Inl (Request r),
         emit (Requested (GetFile i))
           (snd (fetch_loop E tok folder pre False
                   (emit (Requested ListFiles) (emit (Requested Login) w)))))"
    by (simp add: ids)
qed

theorem fetch_failure_aborts_without_commit_witness:
  "api_login env_fetch_fails = Inr ''token'' \<and>
   api_files env_fetch_fails ''token'' = Inr [entry 2 ''b.vcl'' True, entry 9 ''z.vcl'' True] \<and>
   file_ids [entry 2 ''b.vcl'' True, entry 9 ''z.vcl'' True] = [2] @ 9 # [] \<and>
   api_file env_fetch_fails ''token'' 9 = Inl HTTPError \<and>
   fst (main_try env_fetch_fails ''/srv/mirror'' False world0) = Inl (Request HTTPError) \<and>
   commits (events (snd (main_try env_fetch_fails ''/srv/mirror'' False world0))) = 0 \<and>
   removed_paths (events (snd (main_try env_fetch_fails ''/srv/mirror'' False world0))) = [] \<and>
   repo (snd (main_try env_fetch_fails ''/srv/mirror'' False world0)) = repo world0 \<and>
   disk (snd (main_try env_fetch_fails ''/srv/mirror'' False world0)) =
     disk (snd (fetch_loop env_fetch_fails ''token'' ''/srv/mirror'' [2] False
                  (emit (Requested ListFiles) (emit (Requested Login) world0))))"
proof -
  have 3: "api_login env_fetch_fails = Inr ''token''"
    "api_files env_fetch_fails ''token'' = Inr [entry 2 ''b.vcl'' True, entry 9 ''z.vcl'' True]"
    "file_ids [entry 2 ''b.vcl'' True, entry 9 ''z.vcl'' True] = [2] @ 9 # []"
    "api_file env_fetch_fails ''token'' 9 = Inl HTTPError"
    by (simp_all add: example_defs file_ids_def)
  have 4: "fst (fetch_loop env_fetch_fails ''token'' ''/srv/mirror'' [2] False
             (emit (Requested ListFiles) (emit (Requested Login) world0))) = Inr True"
    by code_simp
  have e: "commits (events world0) = 0" "removed_paths (events world0) = []"
    by (simp_all add: world0_def)
  have i: "9 \<in> set ([2] @ 9 # [])" by simp
  let ?t = "main_try env_fetch_fails ''/srv/mirror'' False world0"
  let ?w3 = "snd (fetch_loop env_fetch_fails ''token'' ''/srv/mirror'' [2] False
                  (emit (Requested ListFiles) (emit (Requested Login) world0)))"
  from fetch_failure_aborts_without_commit
         [of env_fetch_fails "''token''" "[entry 2 ''b.vcl'' True, entry 9 ''z.vcl'' True]" 9
             HTTPError "''/srv/mirror''" False world0 "[2]" "[]" True] 3 4 i
  have c: "commits (events (snd ?t)) = commits (events world0)"
    "removed_paths (events (snd ?t)) = removed_paths (events world0)"
    "repo (snd ?t) = repo world0"
    "?t = (Inl (Request HTTPError), emit (Requested (GetFile 9)) ?w3)"
    unfolding 3(3) by blast+
  have "fst ?t = Inl (Request HTTPError)" "disk (snd ?t) = disk ?w3"
    unfolding c(4) by simp_all
  with c(1-3) 3 show ?thesis unfolding e by blast
qed

subsection \<open>C7: the effective payload, and empty content\<close>




subsection \<open>C8: digest sensitivity\<close>

text \<open>
  Claim C8 says that the change check reports true for any two distinct payloads. The
  check compares digests, and a SHA-256 hex digest has 64 characters, of which there are
  finitely many, while there are infinitely many payloads: whatever the digest function,
  if all its values have 64 characters then two distinct payloads have the same digest,
  and the check reports no change for the one against the digest of the other. The
  digests of the examples are true SHA-256 digests, of 64 characters.
\<close>

theorem no_digest_tells_all_payloads_apart:
  "\<not> (\<exists>E :: 'g env.
        (\<forall>b. length (sha256_hexdigest E b) = 64) \<and>
        (\<forall>p1 p2. p1 \<noteq> p2 \<longrightarrow> is_changed E p1 (sha256_hexdigest E p2))) \<and>
   length (sha256_table []) = 64 \<and> length (sha256_table ''a'') = 64 \<and>
   length (sha256_table ''b'') = 64 \<and> length (sha256_table [CHR 0xFF]) = 64"
proof -
  have "\<exists>p1 p2. p1 \<noteq> p2 \<and> \<not> is_changed E p1 (sha256_hexdigest E p2)"
    if "\<forall>b. length (sha256_hexdigest E b) = 64" for E :: "'g env"
  proof -
    from that have "\<And>b. length (sha256_hexdigest E b) = 64" by blast
    from fixed_length_digest_collides [of "sha256_hexdigest E" 64, OF this]
    show ?thesis by (simp add: is_changed_def)
  qed
  then have "\<not> (\<exists>E :: 'g env.
        (\<forall>b. length (sha256_hexdigest E b) = 64) \<and>
        (\<forall>p1 p2. p1 \<noteq> p2 \<longrightarrow> is_changed E p1 (sha256_hexdigest E p2)))"
    by blast
  moreover have "length (sha256_table []) = 64" "length (sha256_table ''a'') = 64"
    "length (sha256_table ''b'') = 64" "length (sha256_table [CHR 0xFF]) = 64"
    by code_simp+
  ultimately show ?thesis by (intro conjI)
qed

text \<open>
  Claim C8, amended. The change check of \<^verbatim>\<open>process_file\<close> compares digests, not payloads.
  For an existing local file with the bytes \<open>p1\<close>, the check is true if and only if the
  SHA-256 digest of \<open>p1\<close> differs from the remote digest; against the digest of a payload
  \<open>p2\<close> that is if and only if the digests of \<open>p1\<close> and \<open>p2\<close> differ. When the digests are
  equal, \<^verbatim>\<open>process_file\<close> returns \<^verbatim>\<open>False\<close> and writes nothing. When they differ, it goes
  on to write: with a payload that decodes and a text that encodes, it replaces the
  bytes of the file and returns \<^verbatim>\<open>True\<close>.
\<close>

theorem change_check_compares_digests:
  "let p = os_path_join folder (f_name vclfile);
       logged = emit (Log DEBUG (ProcessingFile (f_id vclfile) (f_name vclfile) (f_sha vclfile))) w
   in (read_bytes (disk w) (getcwd E) p = Inr p1 \<longrightarrow>
         sha256_hexdigest E p1 = f_sha vclfile \<longrightarrow>
           process_file E vclfile folder w = (Inr False, logged)) \<and>
      (read_bytes (disk w) (getcwd E) p = Inr p1 \<longrightarrow>
         sha256_hexdigest E p1 \<noteq> f_sha vclfile \<longrightarrow>
         decode_source E (file_source vclfile) = Inr t \<longrightarrow> text_encode E t = Some bs \<longrightarrow>
         resolve (disk w) (getcwd E) p = Inr q \<longrightarrow>
           process_file E vclfile folder w =
             (Inr True,
              w\<lparr>disk := AList.update q (File bs) (AList.update q (File []) (disk w)),
                events := events w @
                  [Log DEBUG (ProcessingFile (f_id vclfile) (f_name vclfile) (f_sha vclfile)),
                   Log INFO (WritingFile (f_name vclfile)), Wrote p]\<rparr>) \<and>
           read_bytes (disk (snd (process_file E vclfile folder w))) (getcwd E) p = Inr bs) \<and>
      (read_bytes (disk w) (getcwd E) p = Inr p1 \<longrightarrow>
         (fst (process_file E vclfile folder w) = Inr False \<longleftrightarrow>
            sha256_hexdigest E p1 = f_sha vclfile) \<and>
         (fst (process_file E vclfile folder w) \<noteq> Inr False \<longleftrightarrow>
            is_changed E p1 (f_sha vclfile))) \<and>
      (read_bytes (disk w) (getcwd E) p = Inr p1 \<longrightarrow> f_sha vclfile = sha256_hexdigest E p2 \<longrightarrow>
         (fst (process_file E vclfile folder w) = Inr False \<longleftrightarrow>
            sha256_hexdigest E p1 = sha256_hexdigest E p2))"
proof -
  let ?p = "os_path_join folder (f_name vclfile)"
  let ?L = "emit (Log DEBUG (ProcessingFile (f_id vclfile) (f_name vclfile) (f_sha vclfile))) w"
  have u: "up_to_date E (disk w) ?p (f_sha vclfile) \<longleftrightarrow> sha256_hexdigest E p1 = f_sha vclfile"
    if "read_bytes (disk w) (getcwd E) ?p = Inr p1"
    using that by (simp add: up_to_date_read)
  have 1: "process_file E vclfile folder w = (Inr False, ?L)"
    if "read_bytes (disk w) (getcwd E) ?p = Inr p1" "sha256_hexdigest E p1 = f_sha vclfile"
    using u [OF that(1)] that(2) process_file_up_to_date [of E w folder vclfile] by blast
  have 2: "process_file E vclfile folder w =
             (Inr True,
              w\<lparr>disk := AList.update q (File bs) (AList.update q (File []) (disk w)),
                events := events w @
                  [Log DEBUG (ProcessingFile (f_id vclfile) (f_name vclfile) (f_sha vclfile)),
                   Log INFO (WritingFile (f_name vclfile)), Wrote ?p]\<rparr>) \<and>
           read_bytes (disk (snd (process_file E vclfile folder w))) (getcwd E) ?p = Inr bs"
    if r: "read_bytes (disk w) (getcwd E) ?p = Inr p1"
      and ne: "sha256_hexdigest E p1 \<noteq> f_sha vclfile"
      and d: "decode_source E (file_source vclfile) = Inr t" and e: "text_encode E t = Some bs"
      and q: "resolve (disk w) (getcwd E) ?p = Inr q"
  proof -
    from u [OF r] ne have n: "\<not> up_to_date E (disk w) ?p (f_sha vclfile)" by blast
    from r q have "node_at (disk w) q = Some (File p1)"
      by (auto simp: read_bytes_iff)
    then have nd: "\<not> is_dir (disk w) q" by (simp add: is_dir_def)
    from process_file_written [OF n d q nd e] process_file_written_read [OF n d q nd e]
    show ?thesis by blast
  qed
  have 3: "(fst (process_file E vclfile folder w) = Inr False \<longleftrightarrow>
            sha256_hexdigest E p1 = f_sha vclfile) \<and>
         (fst (process_file E vclfile folder w) \<noteq> Inr False \<longleftrightarrow>
            is_changed E p1 (f_sha vclfile))"
    if "read_bytes (disk w) (getcwd E) ?p = Inr p1"
    using u [OF that] by (simp add: process_file_False_iff is_changed_def)
  have 4: "fst (process_file E vclfile folder w) = Inr False \<longleftrightarrow>
            sha256_hexdigest E p1 = sha256_hexdigest E p2"
    if "read_bytes (disk w) (getcwd E) ?p = Inr p1" "f_sha vclfile = sha256_hexdigest E p2"
    using 3 [OF that(1)] that(2) by simp
  show ?thesis
    unfolding Let_def
    apply (intro conjI impI)
    subgoal by (rule 1)
    subgoal using 2 by blast
    subgoal using 2 by blast
    subgoal using 3 by blast
    subgoal using 3 by blast
    subgoal by (rule 4)
    done
qed

theorem change_check_compares_digests_witness:
  "read_bytes (disk world0) (getcwd env_ab) (os_path_join ''/srv/mirror'' ''c.vcl'') = Inr ''b'' \<and>
   sha256_hexdigest env_ab ''b'' = sha256_table ''b'' \<and>
   process_file env_ab (detail 3 ''c.vcl'' (sha256_table ''b'') ''Yg=='' []) ''/srv/mirror'' world0 =
     (Inr False, emit (Log DEBUG (ProcessingFile 3 ''c.vcl'' (sha256_table ''b''))) world0) \<and>
   sha256_hexdigest env_ab ''b'' \<noteq> sha256_table ''a'' \<and>
   process_file env_ab (detail 7 ''c.vcl'' (sha256_table ''a'') ''YQ=='' []) ''/srv/mirror'' world0 =
     (Inr True,
      world0\<lparr>disk := AList.update [''srv'', ''mirror'', ''c.vcl''] (File ''a'')
                 (AList.update [''srv'', ''mirror'', ''c.vcl''] (File []) (disk world0)),
             events := events world0 @
               [Log DEBUG (ProcessingFile 7 ''c.vcl'' (sha256_table ''a'')),
                Log INFO (WritingFile ''c.vcl''), Wrote (os_path_join ''/srv/mirror'' ''c.vcl'')]\<rparr>) \<and>
   read_bytes (disk (snd (process_file env_ab
       (detail 7 ''c.vcl'' (sha256_table ''a'') ''YQ=='' []) ''/srv/mirror'' world0)))
     (getcwd env_ab) (os_path_join ''/srv/mirror'' ''c.vcl'') = Inr ''a'' \<and>
   is_changed env_ab ''b'' (sha256_table ''a'') \<and>
   sha256_table ''a'' = sha256_hexdigest env_ab ''a'' \<and>
   sha256_hexdigest env_ab ''b'' \<noteq> sha256_hexdigest env_ab ''a'' \<and>
   fst (process_file env_ab (detail 7 ''c.vcl'' (sha256_table ''a'') ''YQ=='' [])
          ''/srv/mirror'' world0) \<noteq> Inr False"
proof -
  let ?c = "detail 3 ''c.vcl'' (sha256_table ''b'') ''Yg=='' []"
  let ?d = "detail 7 ''c.vcl'' (sha256_table ''a'') ''YQ=='' []"
  have sel: "f_id ?c = 3" "f_name ?c = ''c.vcl''" "f_sha ?c = sha256_table ''b''"
            "f_id ?d = 7" "f_name ?d = ''c.vcl''" "f_sha ?d = sha256_table ''a''"
    by (simp_all add: detail_def)
  have r: "read_bytes (disk world0) (getcwd env_ab) (os_path_join ''/srv/mirror'' ''c.vcl'') = Inr ''b''"
    and s: "sha256_hexdigest env_ab ''b'' = sha256_table ''b''"
    and ne: "sha256_hexdigest env_ab ''b'' \<noteq> sha256_table ''a''"
    and sa: "sha256_table ''a'' = sha256_hexdigest env_ab ''a''"
    and ne2: "sha256_hexdigest env_ab ''b'' \<noteq> sha256_hexdigest env_ab ''a''"
    and d: "decode_source env_ab (file_source ?d) = Inr [97]"
    and e: "text_encode env_ab [97] = Some ''a''"
    and q: "resolve (disk world0) (getcwd env_ab) (os_path_join ''/srv/mirror'' ''c.vcl'')
              = Inr [''srv'', ''mirror'', ''c.vcl'']"
    by code_simp+
  from change_check_compares_digests
         [where E = env_ab and folder = "''/srv/mirror''" and vclfile = ?c and w = world0
            and ?p1.0 = "''b''", unfolded Let_def sel] r s
  have 1: "process_file env_ab ?c ''/srv/mirror'' world0 =
             (Inr False, emit (Log DEBUG (ProcessingFile 3 ''c.vcl'' (sha256_table ''b''))) world0)"
    by blast
  note D = change_check_compares_digests
         [where E = env_ab and folder = "''/srv/mirror''" and vclfile = ?d and w = world0
            and ?p1.0 = "''b''" and ?p2.0 = "''a''" and t = "[97]" and bs = "''a''"
            and q = "[''srv'', ''mirror'', ''c.vcl'']", unfolded Let_def sel]
  from D r ne d e q
  have 2: "process_file env_ab ?d ''/srv/mirror'' world0 =
     (Inr True,
      world0\<lparr>disk := AList.update [''srv'', ''mirror'', ''c.vcl''] (File ''a'')
                 (AList.update [''srv'', ''mirror'', ''c.vcl''] (File []) (disk world0)),
             events := events world0 @
               [Log DEBUG (ProcessingFile 7 ''c.vcl'' (sha256_table ''a'')),
                Log INFO (WritingFile ''c.vcl''), Wrote (os_path_join ''/srv/mirror'' ''c.vcl'')]\<rparr>)"
    and 3: "read_bytes (disk (snd (process_file env_ab ?d ''/srv/mirror'' world0)))
              (getcwd env_ab) (os_path_join ''/srv/mirror'' ''c.vcl'') = Inr ''a''"
    by blast+
  from D r sa ne2
  have 5: "fst (process_file env_ab ?d ''/srv/mirror'' world0) \<noteq> Inr False"
    by blast
  from D r 5
  have 4: "is_changed env_ab ''b'' (sha256_table ''a'')"
    by blast
  show ?thesis
    using r s 1 ne 2 3 4 sa ne2 5 by (intro conjI)
qed

subsection \<open>C9: a payload that is not valid UTF-8\<close>

text \<open>
  Claim C9 says that the run aborts with a decoding error whenever the decoded payload of
  a deployed artifact is not valid UTF-8. The payload is decoded only when the run comes
  to write the artifact. With a local file \<^verbatim>\<open>bad.vcl\<close> that holds the byte \<^verbatim>\<open>0xFF\<close> and the
  remote digest of that byte, the artifact is skipped as current: nothing is decoded,
  the run completes and the process ends with status 0. And when the retrieval of an
  artifact listed before it fails, the run ends there, with the request error logged and
  status 0, before the payload is retrieved at all.
\<close>

theorem undecodable_payload_of_current_file_is_not_decoded:
  "api_files env_bad_in_sync ''token'' =
     Inr [entry 1 ''a.vcl'' True, entry 3 ''c.vcl'' True, entry 8 ''bad.vcl'' True] \<and>
   api_file env_bad_in_sync ''token'' 8 =
     Inr (detail 8 ''bad.vcl'' (sha256_table [CHR 0xFF]) ''/w=='' []) \<and>
   b64decode env_bad_in_sync
     (file_source (detail 8 ''bad.vcl'' (sha256_table [CHR 0xFF]) ''/w=='' [])) = Some [CHR 0xFF] \<and>
   utf8_decode env_bad_in_sync [CHR 0xFF] = None \<and>
   read_bytes (disk world_bad) (getcwd env_bad_in_sync) (os_path_join ''/srv/mirror'' ''bad.vcl'')
     = Inr [CHR 0xFF] \<and>
   fst (main_try env_bad_in_sync ''/srv/mirror'' False world_bad) = Inr () \<and>
   fst (main env_bad_in_sync ''/srv/mirror'' False world_bad) = 0 \<and>
   requested_ids (events (snd (main env_bad_in_sync ''/srv/mirror'' False world_bad))) = [1, 3, 8] \<and>
   wrote_paths (events (snd (main env_bad_in_sync ''/srv/mirror'' False world_bad))) = [] \<and>
   api_files env_bad_unreached ''token'' =
     Inr [entry 9 ''gone.vcl'' True, entry 8 ''bad.vcl'' True] \<and>
   api_file env_bad_unreached ''token'' 8 =
     Inr (detail 8 ''bad.vcl'' (sha256_table [CHR 0xFF]) ''/w=='' []) \<and>
   fst (main_try env_bad_unreached ''/srv/mirror'' False world0) = Inl (Request HTTPError) \<and>
   fst (main env_bad_unreached ''/srv/mirror'' False world0) = 0 \<and>
   requested_ids (events (snd (main env_bad_unreached ''/srv/mirror'' False world0))) = [9]"
  by code_simp

text \<open>
  Claim C9, amended. When the run comes to a deployed artifact (the login and the list
  have succeeded and the artifacts before it were retrieved and processed without an
  exception) that is due for writing (no local file of its name, or one with another
  digest) and whose base64-decoded effective payload is not valid UTF-8,
  \<^verbatim>\<open>decode('utf-8')\<close> raises before anything is opened; no \<^verbatim>\<open>except\<close> clause catches the
  error, so the process ends with status 1 in the state the call has left, with nothing
  logged after the line on the artifact. No commit is made and nothing is deleted; the
  file system is as the artifacts processed before left it, so their files remain
  written.
\<close>

theorem undecodable_payload_aborts_run_when_due:
  "let w3 = snd (fetch_loop E tok folder pre False
                   (emit (Requested ListFiles) (emit (Requested Login) w)));
       final =
         emit (Log DEBUG (ProcessingFile (f_id vclfile) (f_name vclfile) (f_sha vclfile)))
           (emit (Requested (GetFile i)) w3)
   in api_login E = Inr tok \<longrightarrow> api_files E tok = Inr files \<longrightarrow>
      file_ids files = pre @ i # post \<longrightarrow>
      fst (fetch_loop E tok folder pre False
             (emit (Requested ListFiles) (emit (Requested Login) w))) = Inr c \<longrightarrow>
      api_file E tok i = Inr vclfile \<longrightarrow>
      b64decode E (if f_source vclfile = [] then f_draft vclfile else f_source vclfile) = Some bs \<longrightarrow>
      utf8_decode E bs = None \<longrightarrow>
      \<not> (\<exists>b. read_bytes (disk w3) (getcwd E) (os_path_join folder (f_name vclfile)) = Inr b \<and>
              sha256_hexdigest E b = f_sha vclfile) \<longrightarrow>
        main_try E folder push w = (Inl UnicodeDecodeError, final) \<and>
        main E folder push w = (1, final) \<and>
        commits (events (snd (main E folder push w))) = commits (events w) \<and>
        removed_paths (events (snd (main E folder push w))) = removed_paths (events w) \<and>
        repo (snd (main E folder push w)) = repo w \<and>
        disk (snd (main E folder push w)) = disk w3 \<and>
        wrote_paths (events (snd (main E folder push w))) = wrote_paths (events w3)"
  unfolding Let_def
proof (intro impI)
  let ?w2 = "emit (Requested ListFiles) (emit (Requested Login) w)"
  let ?w3 = "snd (fetch_loop E tok folder pre False ?w2)"
  let ?w4 = "emit (Requested (GetFile i)) ?w3"
  let ?L = "emit (Log DEBUG (ProcessingFile (f_id vclfile) (f_name vclfile) (f_sha vclfile))) ?w4"
  assume tok: "api_login E = Inr tok" and files: "api_files E tok = Inr files"
    and ids: "file_ids files = pre @ i # post"
    and pre: "fst (fetch_loop E tok folder pre False ?w2) = Inr c"
    and f: "api_file E tok i = Inr vclfile"
    and b: "b64decode E (if f_source vclfile = [] then f_draft vclfile else f_source vclfile)
              = Some bs"
    and u: "utf8_decode E bs = None"
    and n0: "\<not> (\<exists>b. read_bytes (disk ?w3) (getcwd E) (os_path_join folder (f_name vclfile)) = Inr b \<and>
              sha256_hexdigest E b = f_sha vclfile)"
  from n0 have n: "\<not> up_to_date E (disk ?w3) (os_path_join folder (f_name vclfile)) (f_sha vclfile)"
    unfolding up_to_date_read .
  from b have b': "b64decode E (file_source vclfile) = Some bs"
    by (simp add: file_source_def)
  from n have n': "\<not> up_to_date E (disk ?w4) (os_path_join folder (f_name vclfile)) (f_sha vclfile)"
    by simp
  have p: "process_file E vclfile folder ?w4 = (Inl UnicodeDecodeError, ?L)"
    by (simp add: process_file_not_up_to_date [OF n'] decode_and_write_def
        decode_source_utf8_fails [OF b' u])
  then have "fst (process_file E vclfile folder ?w4) = Inl UnicodeDecodeError" by simp
  from fetch_loop_stops_at_exception [OF pre f this, of post]
  have l: "fetch_loop E tok folder (file_ids files) False ?w2 = (Inl UnicodeDecodeError, ?L)"
    by (simp add: ids p)
  then have "fst (fetch_loop E tok folder (file_ids files) False ?w2) = Inl UnicodeDecodeError"
    by simp
  from main_try_fetch_fails [OF tok files this]
  have t: "main_try E folder push w = (Inl UnicodeDecodeError, ?L)" by (simp add: l)
  then have m: "main E folder push w = (1, ?L)" by (simp add: main_def)
  have fr: "commits (events ?w3) = commits (events w)"
    "removed_paths (events ?w3) = removed_paths (events w)"
    "repo ?w3 = repo w"
    using fetch_loop_frame [of E tok folder pre False ?w2] by simp_all
  show "main_try E folder push w = (Inl UnicodeDecodeError, ?L) \<and>
     main E folder push w = (1, ?L) \<and>
     commits (events (snd (main E folder push w))) = commits (events w) \<and>
     removed_paths (events (snd (main E folder push w))) = removed_paths (events w) \<and>
     repo (snd (main E folder push w)) = repo w \<and>
     disk (snd (main E folder push w)) = disk ?w3 \<and>
     wrote_paths (events (snd (main E folder push w))) = wrote_paths (events ?w3)"
    by (simp add: t m fr)
qed

theorem undecodable_payload_aborts_run_when_due_witness:
  "api_login env_bad_utf8 = Inr ''token'' \<and>
   api_files env_bad_utf8 ''token'' = Inr [entry 2 ''b.vcl'' True, entry 8 ''bad.vcl'' True] \<and>
   file_ids [entry 2 ''b.vcl'' True, entry 8 ''bad.vcl'' True] = [2] @ 8 # [] \<and>
   fst (fetch_loop env_bad_utf8 ''token'' ''/srv/mirror'' [2] False
          (emit (Requested ListFiles) (emit (Requested Login) world0))) = Inr True \<and>
   api_file env_bad_utf8 ''token'' 8 =
     Inr (detail 8 ''bad.vcl'' (sha256_table [CHR 0xFF]) ''/w=='' []) \<and>
   b64decode env_bad_utf8 ''/w=='' = Some [CHR 0xFF] \<and>
   utf8_decode env_bad_utf8 [CHR 0xFF] = None \<and>
   read_bytes (disk (snd (fetch_loop env_bad_utf8 ''token'' ''/srv/mirror'' [2] False
          (emit (Requested ListFiles) (emit (Requested Login) world0)))))
     (getcwd env_bad_utf8) (os_path_join ''/srv/mirror'' ''bad.vcl'') = Inl FileNotFoundError \<and>
   main env_bad_utf8 ''/srv/mirror'' False world0 =
     (1, emit (Log DEBUG (ProcessingFile 8 ''bad.vcl'' (sha256_table [CHR 0xFF])))
           (emit (Requested (GetFile 8))
              (snd (fetch_loop env_bad_utf8 ''token'' ''/srv/mirror'' [2] False
                      (emit (Requested ListFiles) (emit (Requested Login) world0)))))) \<and>
   commits (events (snd (main env_bad_utf8 ''/srv/mirror'' False world0))) = 0 \<and>
   repo (snd (main env_bad_utf8 ''/srv/mirror'' False world0)) = repo world0 \<and>
   wrote_paths (events (snd (main env_bad_utf8 ''/srv/mirror'' False world0))) =
     [''/srv/mirror/b.vcl''] \<and>
   read_bytes (disk (snd (main env_bad_utf8 ''/srv/mirror'' False world0))) [''srv'']
     ''/srv/mirror/b.vcl'' = Inr ''b''"
proof -
  let ?f = "detail 8 ''bad.vcl'' (sha256_table [CHR 0xFF]) ''/w=='' []"
  let ?w3 = "snd (fetch_loop env_bad_utf8 ''token'' ''/srv/mirror'' [2] False
          (emit (Requested ListFiles) (emit (Requested Login) world0)))"
  have sel: "f_id ?f = 8" "f_name ?f = ''bad.vcl''" "f_sha ?f = sha256_table [CHR 0xFF]"
    "(if f_source ?f = [] then f_draft ?f else f_source ?f) = ''/w==''"
    by (simp_all add: detail_def)
  have 1: "api_login env_bad_utf8 = Inr ''token''"
    "api_files env_bad_utf8 ''token'' = Inr [entry 2 ''b.vcl'' True, entry 8 ''bad.vcl'' True]"
    "file_ids [entry 2 ''b.vcl'' True, entry 8 ''bad.vcl'' True] = [2] @ 8 # []"
    "api_file env_bad_utf8 ''token'' 8 = Inr ?f"
    by (simp_all add: example_defs file_ids_def)
  have 2: "fst (fetch_loop env_bad_utf8 ''token'' ''/srv/mirror'' [2] False
          (emit (Requested ListFiles) (emit (Requested Login) world0))) = Inr True"
    "b64decode env_bad_utf8 ''/w=='' = Some [CHR 0xFF]"
    "utf8_decode env_bad_utf8 [CHR 0xFF] = None"
    by code_simp+
  have r: "read_bytes (disk ?w3) (getcwd env_bad_utf8) (os_path_join ''/srv/mirror'' ''bad.vcl'')
             = Inl FileNotFoundError"
    by code_simp
  have 3: "wrote_paths (events ?w3) = [''/srv/mirror/b.vcl'']"
    "read_bytes (disk ?w3) [''srv''] ''/srv/mirror/b.vcl'' = Inr ''b''"
    by code_simp+
  have n: "\<not> (\<exists>b. read_bytes (disk ?w3) (getcwd env_bad_utf8)
                     (os_path_join ''/srv/mirror'' ''bad.vcl'') = Inr b \<and>
                sha256_hexdigest env_bad_utf8 b = sha256_table [CHR 0xFF])"
    unfolding r by simp
  have e: "commits (events world0) = 0" by (simp add: world0_def)
  let ?m = "main env_bad_utf8 ''/srv/mirror'' False world0"
  from undecodable_payload_aborts_run_when_due
         [where E = env_bad_utf8 and tok = "''token''"
            and files = "[entry 2 ''b.vcl'' True, entry 8 ''bad.vcl'' True]"
            and pre = "[2]" and i = 8 and post = "[]" and folder = "''/srv/mirror''"
            and w = world0 and c = True and vclfile = ?f and bs = "[CHR 0xFF]" and push = False,
          unfolded Let_def sel]
       1 2 n
  have c: "?m = (1, emit (Log DEBUG (ProcessingFile 8 ''bad.vcl'' (sha256_table [CHR 0xFF])))
                      (emit (Requested (GetFile 8)) ?w3))"
    "commits (events (snd ?m)) = commits (events world0)"
    "repo (snd ?m) = repo world0"
    "disk (snd ?m) = disk ?w3" "wrote_paths (events (snd ?m)) = wrote_paths (events ?w3)"
    by blast+
  have c2: "commits (events (snd ?m)) = 0" using c(2) e by simp
  have c4: "wrote_paths (events (snd ?m)) = [''/srv/mirror/b.vcl'']" using c(5) 3(1) by simp
  have c5: "read_bytes (disk (snd ?m)) [''srv''] ''/srv/mirror/b.vcl'' = Inr ''b''"
    using c(4) 3(2) by simp
  show ?thesis
    using 1(1-3) 2(1) 1(4) 2(2,3) r c(1) c2 c(3) c4 c5 by (intro conjI)
qed

subsection \<open>C10: request errors are caught and the exit status is 0\<close>

text \<open>
  Claim C10. When a request exception (\<^verbatim>\<open>HTTPError\<close>, \<^verbatim>\<open>ConnectionError\<close>, \<^verbatim>\<open>Timeout\<close> or
  another \<^verbatim>\<open>RequestException\<close>) is raised in the \<^verbatim>\<open>try\<close> block, by the login, by the
  list of files or by the retrieval of a file, an \<^verbatim>\<open>except\<close> clause catches it, the
  error is logged, \<^verbatim>\<open>main\<close> returns and the exit status is 0.
\<close>

theorem request_errors_exit_zero:
  "(fst (main_try E folder push w) = Inl (Request r) \<longrightarrow>
      main E folder push w =
        (0, emit (Log ERROR (error_message r)) (snd (main_try E folder push w)))) \<and>
   (api_login E = Inl r \<longrightarrow> fst (main_try E folder push w) = Inl (Request r)) \<and>
   (api_login E = Inr tok \<longrightarrow> api_files E tok = Inl r \<longrightarrow>
      fst (main_try E folder push w) = Inl (Request r)) \<and>
   (api_login E = Inr tok \<longrightarrow> api_files E tok = Inr files \<longrightarrow>
    file_ids files = pre @ i # post \<longrightarrow>
    fst (fetch_loop E tok folder pre False
           (emit (Requested ListFiles) (emit (Requested Login) w))) = Inr c \<longrightarrow>
    api_file E tok i = Inl r \<longrightarrow>
      fst (main_try E folder push w) = Inl (Request r))"
proof (intro conjI impI)
  assume "fst (main_try E folder push w) = Inl (Request r)"
  then show "main E folder push w =
        (0, emit (Log ERROR (error_message r)) (snd (main_try E folder push w)))"
    by (cases "main_try E folder push w") (simp add: main_def)
next
  assume "api_login E = Inl r"
  then show "fst (main_try E folder push w) = Inl (Request r)"
    by (simp add: main_try_unfold main_sync_login_fails)
next
  assume "api_login E = Inr tok" "api_files E tok = Inl r"
  then show "fst (main_try E folder push w) = Inl (Request r)"
    by (simp add: main_try_unfold main_sync_list_fails)
next
  assume tok: "api_login E = Inr tok" and files: "api_files E tok = Inr files"
    and ids: "file_ids files = pre @ i # post"
    and pre: "fst (fetch_loop E tok folder pre False
           (emit (Requested ListFiles) (emit (Requested Login) w))) = Inr c"
    and r: "api_file E tok i = Inl r"
  from fetch_loop_stops_at [OF pre r, of post]
  have "fst (fetch_loop E tok folder (file_ids files) False
           (emit (Requested ListFiles) (emit (Requested Login) w))) = Inl (Request r)"
    by (simp add: ids)
  from main_try_fetch_fails [OF tok files this]
  show "fst (main_try E folder push w) = Inl (Request r)" by simp
qed

theorem request_errors_exit_zero_witness:
  "api_login env_login_fails = Inl ConnectionError \<and>
   main env_login_fails ''/srv/mirror'' True world0 =
     (0, world0\<lparr>events := [Requested Login, Log ERROR ConnectionFailed]\<rparr>) \<and>
   api_login env_list_fails = Inr ''token'' \<and> api_files env_list_fails ''token'' = Inl Timeout \<and>
   main env_list_fails ''/srv/mirror'' True world0 =
     (0, world0\<lparr>events := [Requested Login, Requested ListFiles, Log ERROR TimeoutError]\<rparr>) \<and>
   api_file env_fetch_fails ''token'' 9 = Inl HTTPError \<and>
   fst (main env_fetch_fails ''/srv/mirror'' True world0) = 0 \<and>
   last (events (snd (main env_fetch_fails ''/srv/mirror'' True world0))) = Log ERROR HttpError"
proof -
  have 1: "api_login env_login_fails = Inl ConnectionError"
    by (simp add: example_defs)
  have 2: "api_login env_list_fails = Inr ''token''" "api_files env_list_fails ''token'' = Inl Timeout"
    by (simp_all add: example_defs)
  have 3: "api_login env_fetch_fails = Inr ''token''"
    "api_files env_fetch_fails ''token'' = Inr [entry 2 ''b.vcl'' True, entry 9 ''z.vcl'' True]"
    "file_ids [entry 2 ''b.vcl'' True, entry 9 ''z.vcl'' True] = [2] @ 9 # []"
    "api_file env_fetch_fails ''token'' 9 = Inl HTTPError"
    by (simp_all add: example_defs file_ids_def)
  have 4: "fst (fetch_loop env_fetch_fails ''token'' ''/srv/mirror'' [2] False
             (emit (Requested ListFiles) (emit (Requested Login) world0))) = Inr True"
    by code_simp
  have s1: "snd (main_try env_login_fails ''/srv/mirror'' True world0) =
              world0\<lparr>events := [Requested Login]\<rparr>"
    by code_simp
  have s2: "snd (main_try env_list_fails ''/srv/mirror'' True world0) =
              world0\<lparr>events := [Requested Login, Requested ListFiles]\<rparr>"
    by code_simp
  note t = request_errors_exit_zero
  from t [of env_login_fails "''/srv/mirror''" True world0 ConnectionError] 1
  have a: "main env_login_fails ''/srv/mirror'' True world0 =
     (0, world0\<lparr>events := [Requested Login, Log ERROR ConnectionFailed]\<rparr>)"
    by (simp add: s1 emit_def)
  from t [of env_list_fails "''/srv/mirror''" True world0 Timeout "''token''"] 2
  have b: "main env_list_fails ''/srv/mirror'' True world0 =
     (0, world0\<lparr>events := [Requested Login, Requested ListFiles, Log ERROR TimeoutError]\<rparr>)"
    by (simp add: s2 emit_def)
  from t [of env_fetch_fails "''/srv/mirror''" True world0 HTTPError "''token''"
            "[entry 2 ''b.vcl'' True, entry 9 ''z.vcl'' True]" "[2]" 9 "[]" True] 3 4
  have c: "main env_fetch_fails ''/srv/mirror'' True world0 =
        (0, emit (Log ERROR (error_message HTTPError))
              (snd (main_try env_fetch_fails ''/srv/mirror'' True world0)))"
    by simp
  from a b c 1 2 3(4) show ?thesis by simp
qed


end
